theory Spec2Isabelle
  imports Complex_Main "HOL-Library.Word" "HOL-Library.Char_ord" "HOL-Library.List_Lexorder"
    "HOL-Library.Sublist"
begin

unbundle bit_operations_syntax

section \<open>stac-tiler: the STAC reader of \<^verbatim>\<open>stac_tiler/reader.py\<close>\<close>

text \<open>
  Naming: a leading underscore of a Python name becomes the prefix \<open>p_\<close>
  (\<^verbatim>\<open>_get_assets\<close> is \<open>p_get_assets\<close>), \<^verbatim>\<open>__enter__\<close> and \<^verbatim>\<open>__exit__\<close> are
  \<open>reader_enter\<close> and \<open>reader_exit\<close>. Python strings are modelled as \<open>string\<close>
  (ASCII), Python exceptions as values of \<open>error\<close> in the left summand of a result.
\<close>

subsection \<open>Errors\<close>

datatype error =
    InvalidBandName string    \<comment> \<open>\<^verbatim>\<open>rio_tiler.errors.InvalidBandName(message)\<close>\<close>
  | PyException string        \<comment> \<open>\<^verbatim>\<open>Exception(message)\<close>\<close>
  | KeyError string
  | ValueError string
  | TypeError string
  | AttributeError string
  | External string           \<comment> \<open>a failure raised by a collaborator (fetcher, raster reader, numexpr)\<close>

definition no_assets_message :: string where
  "no_assets_message = ''assets must be passed either via expression or assets options.''"

subsection \<open>Catalog item and reader state\<close>

record asset_info =
  asset_href :: string
  asset_type :: string

text \<open>
  The parsed STAC item: the fields the reader uses. \<^verbatim>\<open>item["assets"]\<close> is a Python dict,
  kept as an association list in iteration order (a dict has no duplicate keys).
\<close>

record stac_item =
  bbox :: "real list"
  item_assets :: "(string \<times> asset_info) list"

record reader =
  filepath :: string
  item :: "stac_item option"
  tms :: string
  minzoom :: int
  maxzoom :: int
  include_assets :: "string set option"
  exclude_assets :: "string set option"
  include_asset_types :: "string set option"
  exclude_asset_types :: "string set option"
  bounds :: "real list option"      \<comment> \<open>attribute set by \<^verbatim>\<open>__enter__\<close>\<close>
  assets :: "string list option"    \<comment> \<open>attribute set by \<^verbatim>\<open>__enter__\<close>\<close>

definition DEFAULT_VALID_TYPE :: "string set" where
  "DEFAULT_VALID_TYPE = set
    [''image/tiff; application=geotiff'',
     ''image/tiff; application=geotiff; profile=cloud-optimized'',
     ''image/vnd.stac.geotiff; cloud-optimized=true'',
     ''image/tiff'',
     ''image/x.geotiff'',
     ''image/jp2'',
     ''application/x-hdf5'',
     ''application/x-hdf'']"

text \<open>The dataclass constructor with its defaults (WebMercatorQuad has zooms 0 to 24).\<close>

definition STACReader :: "string \<Rightarrow> reader" where
  "STACReader path =
     \<lparr>filepath = path, item = None, tms = ''WebMercatorQuad'', minzoom = 0, maxzoom = 24,
      include_assets = None, exclude_assets = None,
      include_asset_types = Some DEFAULT_VALID_TYPE, exclude_asset_types = None,
      bounds = None, assets = None\<rparr>"

subsection \<open>Asset selection\<close>

text \<open>
  Python truth value of an \<^verbatim>\<open>Optional[Set[str]]\<close>: \<^verbatim>\<open>None\<close> and the empty set are
  both false.
\<close>

definition truthy_set :: "string set option \<Rightarrow> bool" where
  "truthy_set s = (case s of None \<Rightarrow> False | Some xs \<Rightarrow> xs \<noteq> {})"

definition in_opt :: "string \<Rightarrow> string set option \<Rightarrow> bool" where
  "in_opt x s = (case s of None \<Rightarrow> False | Some xs \<Rightarrow> x \<in> xs)"

text \<open>
  \<^verbatim>\<open>_get_assets\<close>: the generator's loop over \<^verbatim>\<open>item["assets"].items()\<close>, one equation
  per iteration, each \<^verbatim>\<open>continue\<close> a branch that skips the asset.
\<close>

fun get_assets_loop ::
  "(string \<times> asset_info) list \<Rightarrow> string set option \<Rightarrow> string set option \<Rightarrow>
   string set option \<Rightarrow> string set option \<Rightarrow> string list" where
  "get_assets_loop [] inc exc inc_types exc_types = []"
| "get_assets_loop ((asset, info) # rest) inc exc inc_types exc_types =
     (let ty = asset_type info in
      if truthy_set exc \<and> in_opt asset exc then
        get_assets_loop rest inc exc inc_types exc_types
      else if (truthy_set exc_types \<and> in_opt ty exc_types) \<or>
              (truthy_set inc \<and> \<not> in_opt asset inc) then
        get_assets_loop rest inc exc inc_types exc_types
      else if (truthy_set inc_types \<and> \<not> in_opt ty inc_types) \<or>
              (truthy_set inc \<and> \<not> in_opt asset inc) then
        get_assets_loop rest inc exc inc_types exc_types
      else asset # get_assets_loop rest inc exc inc_types exc_types)"

definition p_get_assets ::
  "stac_item \<Rightarrow> string set option \<Rightarrow> string set option \<Rightarrow>
   string set option \<Rightarrow> string set option \<Rightarrow> string list" where
  "p_get_assets it inc exc inc_types exc_types =
     get_assets_loop (item_assets it) inc exc inc_types exc_types"

subsection \<open>Lifecycle\<close>

text \<open>
  \<^verbatim>\<open>__enter__\<close>: \<open>fetch\<close> is the document fetcher (a collaborator). A supplied item is
  used as it is; otherwise the item is fetched from \<open>filepath\<close>, and a failure of the
  fetcher propagates.
\<close>

definition reader_enter :: "(string \<Rightarrow> error + stac_item) \<Rightarrow> reader \<Rightarrow> error + reader" where
  "reader_enter fetch r =
     (case (case item r of Some it \<Rightarrow> Inr it | None \<Rightarrow> fetch (filepath r)) of
        Inl e \<Rightarrow> Inl e
      | Inr it \<Rightarrow>
          Inr (r\<lparr>item := Some it,
                 bounds := Some (bbox it),
                 assets := Some (p_get_assets it (include_assets r) (exclude_assets r)
                                   (include_asset_types r) (exclude_asset_types r))\<rparr>))"

text \<open>\<^verbatim>\<open>__exit__\<close>: the body is \<^verbatim>\<open>pass\<close>.\<close>

definition reader_exit :: "reader \<Rightarrow> reader" where
  "reader_exit r = r"

subsection \<open>Asset resolution\<close>

text \<open>
  \<^verbatim>\<open>_get_href\<close>: the validation loop raises at the first requested name that is not in
  \<^verbatim>\<open>self.assets\<close>; then each name is looked up in \<^verbatim>\<open>self.item["assets"]\<close>. Reading an
  attribute that \<^verbatim>\<open>__enter__\<close> has not set is an \<^verbatim>\<open>AttributeError\<close>.
\<close>

fun check_names :: "string list option \<Rightarrow> string list \<Rightarrow> error option" where
  "check_names eligible [] = None"
| "check_names eligible (asset # rest) =
     (case eligible of
        None \<Rightarrow> Some (AttributeError ''assets'')
      | Some known \<Rightarrow>
          if asset \<notin> set known
          then Some (InvalidBandName (asset @ '' is not a valid asset name.''))
          else check_names eligible rest)"

fun lookup_hrefs :: "stac_item option \<Rightarrow> string list \<Rightarrow> error + string list" where
  "lookup_hrefs it [] = Inr []"
| "lookup_hrefs it (asset # rest) =
     (case it of
        None \<Rightarrow> Inl (TypeError ''item'')
      | Some i \<Rightarrow>
          (case map_of (item_assets i) asset of
             None \<Rightarrow> Inl (KeyError asset)
           | Some info \<Rightarrow>
               (case lookup_hrefs it rest of
                  Inl e \<Rightarrow> Inl e
                | Inr hs \<Rightarrow> Inr (asset_href info # hs))))"

definition p_get_href :: "reader \<Rightarrow> string list \<Rightarrow> error + string list" where
  "p_get_href r names =
     (case check_names (assets r) names of
        Some e \<Rightarrow> Inl e
      | None \<Rightarrow> lookup_hrefs (item r) names)"

subsection \<open>Arrays\<close>

text \<open>
  A numpy array: its shape and its elements in row-major order. A well-formed array has
  as many elements as its shape says.
\<close>

record 'a ndarray =
  shape :: "nat list"
  elems :: "'a list"

definition wf_array :: "'a ndarray \<Rightarrow> bool" where
  "wf_array a = (length (elems a) = prod_list (shape a))"

text \<open>
  Array elements: a number, or one of the three non-finite floating-point values.
\<close>

datatype fval = Finite real | PosInf | NegInf | NaN

text \<open>
  \<^verbatim>\<open>numpy.concatenate(arrays)\<close> with the default \<^verbatim>\<open>axis=0\<close>: the arrays must have at
  least one dimension and agree on every dimension but the first.
\<close>

definition concatenate :: "'a ndarray list \<Rightarrow> error + 'a ndarray" where
  "concatenate arrs =
     (case arrs of
        [] \<Rightarrow> Inl (ValueError ''need at least one array to concatenate'')
      | a # _ \<Rightarrow>
          if list_ex (\<lambda>x. shape x = []) arrs
          then Inl (ValueError ''zero-dimensional arrays cannot be concatenated'')
          else if list_ex (\<lambda>x. tl (shape x) \<noteq> tl (shape a)) arrs
          then Inl (ValueError ''all the input array dimensions except for the concatenation axis must match exactly'')
          else Inr \<lparr>shape = sum_list (map (\<lambda>x. hd (shape x)) arrs) # tl (shape a),
                    elems = concat (map elems arrs)\<rparr>)"

text \<open>
  \<^verbatim>\<open>numpy.array(arrays)\<close> on a list of arrays: a new first axis, for arrays of one shape.
\<close>

definition np_array :: "'a ndarray list \<Rightarrow> error + 'a ndarray" where
  "np_array arrs =
     (case arrs of
        [] \<Rightarrow> Inr \<lparr>shape = [0], elems = []\<rparr>
      | a # _ \<Rightarrow>
          if list_ex (\<lambda>x. shape x \<noteq> shape a) arrs
          then Inl (ValueError ''setting an array element with a sequence (inhomogeneous shape)'')
          else Inr \<lparr>shape = length arrs # shape a, elems = concat (map elems arrs)\<rparr>)"

text \<open>
  \<^verbatim>\<open>numpy.all(masks, axis=0)\<close> on a tuple of masks: the tuple is first made one array
  (which needs masks of one shape), then reduced along the new first axis with the
  truth value of each element (non-zero).
\<close>

definition np_all_axis0 :: "8 word ndarray list \<Rightarrow> error + bool ndarray" where
  "np_all_axis0 masks =
     (case masks of
        [] \<Rightarrow> Inr \<lparr>shape = [], elems = [True]\<rparr>
      | a # _ \<Rightarrow>
          if list_ex (\<lambda>x. shape x \<noteq> shape a) masks
          then Inl (ValueError ''setting an array element with a sequence (inhomogeneous shape)'')
          else Inr \<lparr>shape = shape a,
                    elems = map (\<lambda>i. list_all (\<lambda>m. elems m ! i \<noteq> 0) masks)
                              [0..<prod_list (shape a)]\<rparr>)"

text \<open>\<^verbatim>\<open>.astype(numpy.uint8) * 255\<close>\<close>

definition astype_uint8 :: "bool ndarray \<Rightarrow> 8 word ndarray" where
  "astype_uint8 a = \<lparr>shape = shape a, elems = map (\<lambda>b. if b then 1 else 0) (elems a)\<rparr>"

definition times_255 :: "8 word ndarray \<Rightarrow> 8 word ndarray" where
  "times_255 a = \<lparr>shape = shape a, elems = map (\<lambda>w. w * 255) (elems a)\<rparr>"

text \<open>Iterating an array yields its sub-arrays along the first axis.\<close>

definition unstack :: "'a ndarray \<Rightarrow> error + 'a ndarray list" where
  "unstack a =
     (case shape a of
        [] \<Rightarrow> Inl (TypeError ''iteration over a 0-d array'')
      | n # s \<Rightarrow>
          Inr (map (\<lambda>i. \<lparr>shape = s,
                          elems = take (prod_list s) (drop (i * prod_list s) (elems a))\<rparr>)
                 [0..<n]))"

subsection \<open>Fan-out\<close>

text \<open>
  \<^verbatim>\<open>list(executor.map(worker, assets))\<close>: every location is submitted to the pool, the
  results are collected in input order, and the first failure in that order is raised.
  The first component of an outcome is the list of locations submitted to raster
  readers, the second the result or the exception.
\<close>

type_synonym 'a outcome = "string list \<times> (error + 'a)"

fun collect :: "('a \<Rightarrow> error + 'b) \<Rightarrow> 'a list \<Rightarrow> error + 'b list" where
  "collect f [] = Inr []"
| "collect f (x # xs) =
     (case f x of
        Inl e \<Rightarrow> Inl e
      | Inr y \<Rightarrow> (case collect f xs of Inl e \<Rightarrow> Inl e | Inr ys \<Rightarrow> Inr (y # ys)))"

definition executor_map :: "(string \<Rightarrow> error + 'b) \<Rightarrow> string list \<Rightarrow> 'b list outcome" where
  "executor_map worker locations = (locations, collect worker locations)"

subsection \<open>Stacking the per-asset results\<close>

text \<open>
  The three statements that end \<^verbatim>\<open>_tile\<close>, \<^verbatim>\<open>_part\<close> and \<^verbatim>\<open>_preview\<close>:
  \<^verbatim>\<open>data, masks = zip(*results)\<close> (which cannot unpack an empty list),
  \<^verbatim>\<open>numpy.concatenate(data)\<close> and \<^verbatim>\<open>numpy.all(masks, axis=0).astype(numpy.uint8) * 255\<close>.
\<close>

definition stack_results ::
  "('a ndarray \<times> 8 word ndarray) list \<Rightarrow> error + ('a ndarray \<times> 8 word ndarray)" where
  "stack_results results =
     (if results = [] then Inl (ValueError ''not enough values to unpack (expected 2, got 0)'')
      else
        (case concatenate (map fst results) of
           Inl e \<Rightarrow> Inl e
         | Inr d \<Rightarrow>
             (case np_all_axis0 (map snd results) of
                Inl e \<Rightarrow> Inl e
              | Inr b \<Rightarrow> Inr (d, times_255 (astype_uint8 b)))))"

subsection \<open>Strings and the pattern matcher\<close>

text \<open>\<^verbatim>\<open>sep.join(parts)\<close>\<close>

fun str_join :: "string \<Rightarrow> string list \<Rightarrow> string" where
  "str_join sep [] = []"
| "str_join sep [x] = x"
| "str_join sep (x # y # rest) = x @ sep @ str_join sep (y # rest)"

text \<open>\<^verbatim>\<open>s.split(c)\<close> for a separator of one character: empty fields are kept.\<close>

fun split_on :: "char \<Rightarrow> string \<Rightarrow> string list" where
  "split_on c [] = [[]]"
| "split_on c (x # xs) =
     (if x = c then [] # split_on c xs
      else (case split_on c xs of [] \<Rightarrow> [[x]] | w # ws \<Rightarrow> (x # w) # ws))"

text \<open>\<^verbatim>\<open>s.strip()\<close>: the ASCII characters Python counts as whitespace.\<close>

definition py_isspace :: "char \<Rightarrow> bool" where
  "py_isspace c = (of_char c \<in> set [9, 10, 11, 12, 13, 28, 29, 30, 31, 32 :: nat])"

definition strip :: "string \<Rightarrow> string" where
  "strip s = rev (dropWhile py_isspace (rev (dropWhile py_isspace s)))"

text \<open>\<^verbatim>\<open>sorted(names, reverse=True)\<close>: descending in the order of Python strings.\<close>

definition sorted_reverse :: "string list \<Rightarrow> string list" where
  "sorted_reverse names = rev (sort names)"

text \<open>
  The pattern language of \<^verbatim>\<open>re\<close> is modelled for the patterns this reader builds from
  names without special characters: an alternation of literal strings. \<open>re_special\<close>
  are the characters with a meaning of their own in a pattern; \<open>plain_names\<close> says that
  no name has one, so that the compiled pattern is the alternation of the names.
\<close>

definition re_special :: "char \<Rightarrow> bool" where
  "re_special c = (c \<in> set ''.^$*+?{}[]()|'' \<or> c = CHR 0x5C)"

definition plain_names :: "string list \<Rightarrow> bool" where
  "plain_names names = list_all (\<lambda>n. list_all (\<lambda>c. \<not> re_special c) n) names"

definition re_compile :: "string \<Rightarrow> string list" where
  "re_compile pattern = split_on CHR ''|'' pattern"

text \<open>
  One match attempt at the start of \<open>s\<close>: the alternatives are tried from left to right
  and the first that matches wins. After an empty match the next attempt at the same
  position must consume a character (\<open>must_advance\<close>).
\<close>

fun match_alternatives :: "string list \<Rightarrow> bool \<Rightarrow> string \<Rightarrow> string option" where
  "match_alternatives [] must_advance s = None"
| "match_alternatives (a # alts) must_advance s =
     (if prefix a s \<and> \<not> (must_advance \<and> a = []) then Some a
      else match_alternatives alts must_advance s)"

text \<open>
  \<^verbatim>\<open>re.findall(pattern, s)\<close>: the non-overlapping matches from left to right. With no
  match at a position the scan moves on by one character.
\<close>

function re_findall_from :: "string list \<Rightarrow> bool \<Rightarrow> string \<Rightarrow> string list" where
  "re_findall_from alts must_advance s =
     (case match_alternatives alts must_advance s of
        Some m \<Rightarrow>
          if m = [] then [] # re_findall_from alts True s
          else m # re_findall_from alts False (drop (length m) s)
      | None \<Rightarrow> (case s of [] \<Rightarrow> [] | c # rest \<Rightarrow> re_findall_from alts False rest))"
  by pat_completeness auto
termination
proof (relation "measure (\<lambda>(alts, must_advance, s). 2 * length s + (if must_advance then 0 else 1))")
  show "wf (measure (\<lambda>(alts, must_advance, s). 2 * length s + (if must_advance then 0 else 1)))"
    by simp
next
  fix alts :: "string list" and must_advance :: bool and s m :: string
  assume "match_alternatives alts must_advance s = Some m" and "m = []"
  then have "\<not> must_advance"
    by (induction alts) (auto split: if_splits)
  then show "((alts, True, s), (alts, must_advance, s))
      \<in> measure (\<lambda>(alts, must_advance, s). 2 * length s + (if must_advance then 0 else 1))"
    by simp
next
  fix alts :: "string list" and must_advance :: bool and s m :: string
  assume "match_alternatives alts must_advance s = Some m" and "m \<noteq> []"
  then have "prefix m s"
    by (induction alts) (auto split: if_splits)
  with \<open>m \<noteq> []\<close> have "s \<noteq> []" and "0 < length m"
    by auto
  then have "length (drop (length m) s) < length s"
    by simp
  then show "((alts, False, drop (length m) s), (alts, must_advance, s))
      \<in> measure (\<lambda>(alts, must_advance, s). 2 * length s + (if must_advance then 0 else 1))"
    by simp
next
  fix alts :: "string list" and must_advance :: bool and s rest :: string and c :: char
  assume "s = c # rest"
  then show "((alts, False, rest), (alts, must_advance, s))
      \<in> measure (\<lambda>(alts, must_advance, s). 2 * length s + (if must_advance then 0 else 1))"
    by simp
qed

declare re_findall_from.simps [simp del]

definition re_findall :: "string list \<Rightarrow> string \<Rightarrow> string list" where
  "re_findall alts s = re_findall_from alts False s"

subsection \<open>Expression parsing\<close>

text \<open>
  \<^verbatim>\<open>_parse_expression\<close>. \<open>list_set\<close> stands for \<^verbatim>\<open>list(set(xs))\<close>: the distinct
  elements of \<open>xs\<close> in the iteration order of a Python set, which the language leaves
  open; \<open>py_list_set\<close> is all that is known of it.
\<close>

definition py_list_set :: "(string list \<Rightarrow> string list) \<Rightarrow> bool" where
  "py_list_set f = (\<forall>xs. distinct (f xs) \<and> set (f xs) = set xs)"

definition p_parse_expression ::
  "(string list \<Rightarrow> string list) \<Rightarrow> reader \<Rightarrow> string \<Rightarrow> error + string list" where
  "p_parse_expression list_set r expression =
     (case assets r of
        None \<Rightarrow> Inl (AttributeError ''assets'')
      | Some known \<Rightarrow>
          Inr (list_set (re_findall (re_compile (str_join ''|'' (sorted_reverse known)))
                           expression)))"

subsection \<open>Expression application\<close>

text \<open>
  \<^verbatim>\<open>numpy.nan_to_num\<close> with its default arguments, on double-precision values (what
  \<^verbatim>\<open>numexpr\<close> computes a division in): NaN becomes zero, an infinity becomes the
  largest finite value of its sign, a finite value is kept. This is numpy's documented
  behaviour; numpy itself is not part of the repository.
\<close>

definition float64_max :: real where
  "float64_max = (2 - 1 / 2 ^ 52) * 2 ^ 1023"

fun nan_to_num :: "fval \<Rightarrow> fval" where
  "nan_to_num NaN = Finite 0"
| "nan_to_num PosInf = Finite float64_max"
| "nan_to_num NegInf = Finite (- float64_max)"
| "nan_to_num (Finite x) = Finite x"

definition nan_to_num_array :: "fval ndarray \<Rightarrow> fval ndarray" where
  "nan_to_num_array a = \<lparr>shape = shape a, elems = map nan_to_num (elems a)\<rparr>"

text \<open>\<^verbatim>\<open>dict(pairs)\<close>: a later pair replaces an earlier one with the same key.\<close>

definition py_dict :: "('k \<times> 'v) list \<Rightarrow> 'k \<rightharpoonup> 'v" where
  "py_dict pairs = fold (\<lambda>(k, v) m. m(k \<mapsto> v)) pairs Map.empty"

text \<open>
  The \<^verbatim>\<open>data\<close> argument of \<^verbatim>\<open>_apply_expression\<close> is an array (tile, part, preview) or a
  list of lists (point); \<^verbatim>\<open>zip(bands, data)\<close> iterates over its first axis.
\<close>

datatype pydata = Array "fval ndarray" | Lists "fval list list"

fun iterate :: "pydata \<Rightarrow> error + fval ndarray list" where
  "iterate (Array a) = unstack a"
| "iterate (Lists ls) = Inr (map (\<lambda>l. \<lparr>shape = [length l], elems = l\<rparr>) ls)"

text \<open>
  \<^verbatim>\<open>_apply_expression\<close>. \<open>evaluate\<close> is \<^verbatim>\<open>numexpr.evaluate(expr, local_dict=...)\<close>, a
  collaborator.
\<close>

definition p_apply_expression ::
  "(string \<Rightarrow> (string \<rightharpoonup> fval ndarray) \<Rightarrow> error + fval ndarray) \<Rightarrow>
   string list \<Rightarrow> string list \<Rightarrow> pydata \<Rightarrow> error + fval ndarray" where
  "p_apply_expression evaluate blocks bands data =
     (case iterate data of
        Inl e \<Rightarrow> Inl e
      | Inr rows \<Rightarrow>
          (let local_dict = py_dict (zip bands rows) in
           case collect (\<lambda>bloc. case evaluate (strip bloc) local_dict of
                                   Inl e \<Rightarrow> Inl e
                                 | Inr a \<Rightarrow> Inr (nan_to_num_array a)) blocks of
             Inl e \<Rightarrow> Inl e
           | Inr outs \<Rightarrow> np_array outs))"

subsection \<open>Collaborators\<close>

text \<open>
  What the reader calls and does not define: the iteration order of a set, numexpr, and
  the single-raster reader \<^verbatim>\<open>COGReader\<close>, each method taking the location, the tiling
  scheme where the reader is built with one, and the call's own arguments \<open>'k\<close>
  (positional and keyword arguments, forwarded as they are).
\<close>

record ('k, 'd) env =
  list_set :: "string list \<Rightarrow> string list"
  evaluate :: "string \<Rightarrow> (string \<rightharpoonup> fval ndarray) \<Rightarrow> error + fval ndarray"
  cog_tile :: "string \<Rightarrow> string \<Rightarrow> 'k \<Rightarrow> error + (fval ndarray \<times> 8 word ndarray)"
  cog_part :: "string \<Rightarrow> 'k \<Rightarrow> error + (fval ndarray \<times> 8 word ndarray)"
  cog_preview :: "string \<Rightarrow> 'k \<Rightarrow> error + (fval ndarray \<times> 8 word ndarray)"
  cog_point :: "string \<Rightarrow> 'k \<Rightarrow> error + fval list"
  cog_stats :: "string \<Rightarrow> 'k \<Rightarrow> error + 'd"
  cog_info :: "string \<Rightarrow> string \<Rightarrow> error + 'd"
  cog_metadata :: "string \<Rightarrow> 'k \<Rightarrow> error + 'd"

subsection \<open>Assembling the per-asset reads\<close>

text \<open>
  \<^verbatim>\<open>_tile\<close>, \<^verbatim>\<open>_part\<close> and \<^verbatim>\<open>_preview\<close> have one body, \<open>assemble\<close>, and differ in
  the worker: the method of the raster reader that each location is read with.
\<close>

definition assemble ::
  "(string \<Rightarrow> error + (fval ndarray \<times> 8 word ndarray)) \<Rightarrow> string list \<Rightarrow>
   (fval ndarray \<times> 8 word ndarray) outcome" where
  "assemble worker locations =
     (case executor_map worker locations of
        (submitted, Inl e) \<Rightarrow> (submitted, Inl e)
      | (submitted, Inr results) \<Rightarrow> (submitted, stack_results results))"

definition p_tile ::
  "('k, 'd) env \<Rightarrow> reader \<Rightarrow> string list \<Rightarrow> 'k \<Rightarrow> (fval ndarray \<times> 8 word ndarray) outcome" where
  "p_tile env r locations args = assemble (\<lambda>asset. cog_tile env asset (tms r) args) locations"

definition p_part ::
  "('k, 'd) env \<Rightarrow> reader \<Rightarrow> string list \<Rightarrow> 'k \<Rightarrow> (fval ndarray \<times> 8 word ndarray) outcome" where
  "p_part env r locations args = assemble (\<lambda>asset. cog_part env asset args) locations"

definition p_preview ::
  "('k, 'd) env \<Rightarrow> reader \<Rightarrow> string list \<Rightarrow> 'k \<Rightarrow> (fval ndarray \<times> 8 word ndarray) outcome" where
  "p_preview env r locations args = assemble (\<lambda>asset. cog_preview env asset args) locations"

definition p_point ::
  "('k, 'd) env \<Rightarrow> reader \<Rightarrow> string list \<Rightarrow> 'k \<Rightarrow> fval list list outcome" where
  "p_point env r locations args = executor_map (\<lambda>asset. cog_point env asset args) locations"

definition p_stats ::
  "('k, 'd) env \<Rightarrow> reader \<Rightarrow> string list \<Rightarrow> 'k \<Rightarrow> 'd list outcome" where
  "p_stats env r locations args = executor_map (\<lambda>asset. cog_stats env asset args) locations"

definition p_info :: "('k, 'd) env \<Rightarrow> reader \<Rightarrow> string list \<Rightarrow> 'd list outcome" where
  "p_info env r locations = executor_map (\<lambda>asset. cog_info env asset (tms r)) locations"

definition p_metadata ::
  "('k, 'd) env \<Rightarrow> reader \<Rightarrow> string list \<Rightarrow> 'k \<Rightarrow> 'd list outcome" where
  "p_metadata env r locations args =
     executor_map (\<lambda>asset. cog_metadata env asset args) locations"

subsection \<open>The read operations\<close>

text \<open>
  The \<^verbatim>\<open>assets\<close> argument is \<^verbatim>\<open>None\<close>, one name or a sequence of names; a single
  name becomes the one-element tuple. The \<^verbatim>\<open>expression\<close> argument is \<^verbatim>\<open>None\<close> or a
  string, and counts as given when it is a non-empty string.
\<close>

datatype assets_arg = NoAssets | AssetName string | AssetList "string list"

definition as_sequence :: "assets_arg \<Rightarrow> string list option" where
  "as_sequence a =
     (case a of NoAssets \<Rightarrow> None | AssetName n \<Rightarrow> Some [n] | AssetList ns \<Rightarrow> Some ns)"

definition given_expression :: "string option \<Rightarrow> string option" where
  "given_expression expression =
     (case expression of None \<Rightarrow> None | Some e \<Rightarrow> if e = [] then None else Some e)"

text \<open>
  The opening statements of \<^verbatim>\<open>tile\<close>, \<^verbatim>\<open>part\<close>, \<^verbatim>\<open>preview\<close> and \<^verbatim>\<open>point\<close>: a given
  expression replaces the assets by the names parsed from it, and an empty or missing
  asset sequence raises.
\<close>

definition requested_assets ::
  "('k, 'd) env \<Rightarrow> reader \<Rightarrow> assets_arg \<Rightarrow> string option \<Rightarrow> error + string list" where
  "requested_assets env r assets_in expression =
     (case (case given_expression expression of
              Some e \<Rightarrow>
                (case p_parse_expression (list_set env) r e of
                   Inl err \<Rightarrow> Inl err
                 | Inr names \<Rightarrow> Inr (Some names))
            | None \<Rightarrow> Inr (as_sequence assets_in)) of
        Inl err \<Rightarrow> Inl err
      | Inr None \<Rightarrow> Inl (PyException no_assets_message)
      | Inr (Some names) \<Rightarrow>
          if names = [] then Inl (PyException no_assets_message) else Inr names)"

text \<open>
  The rest of \<^verbatim>\<open>tile\<close>, \<^verbatim>\<open>part\<close> and \<^verbatim>\<open>preview\<close>, which differ in the assembling
  method \<open>run\<close> only: resolve the names, read and stack, then apply a given expression.
\<close>

definition read_operation ::
  "(string list \<Rightarrow> (fval ndarray \<times> 8 word ndarray) outcome) \<Rightarrow> ('k, 'd) env \<Rightarrow> reader \<Rightarrow>
   assets_arg \<Rightarrow> string option \<Rightarrow> (fval ndarray \<times> 8 word ndarray) outcome" where
  "read_operation run env r assets_in expression =
     (case requested_assets env r assets_in expression of
        Inl err \<Rightarrow> ([], Inl err)
      | Inr names \<Rightarrow>
          (case p_get_href r names of
             Inl err \<Rightarrow> ([], Inl err)
           | Inr asset_urls \<Rightarrow>
               (case run asset_urls of
                  (submitted, Inl err) \<Rightarrow> (submitted, Inl err)
                | (submitted, Inr (data, msk)) \<Rightarrow>
                    (case given_expression expression of
                       None \<Rightarrow> (submitted, Inr (data, msk))
                     | Some e \<Rightarrow>
                         (case p_apply_expression (evaluate env) (split_on CHR '','' e)
                                 names (Array data) of
                            Inl err \<Rightarrow> (submitted, Inl err)
                          | Inr data' \<Rightarrow> (submitted, Inr (data', msk)))))))"

definition tile ::
  "('k, 'd) env \<Rightarrow> reader \<Rightarrow> 'k \<Rightarrow> assets_arg \<Rightarrow> string option \<Rightarrow>
   (fval ndarray \<times> 8 word ndarray) outcome" where
  "tile env r args assets_in expression =
     read_operation (\<lambda>asset_urls. p_tile env r asset_urls args) env r assets_in expression"

definition part ::
  "('k, 'd) env \<Rightarrow> reader \<Rightarrow> 'k \<Rightarrow> assets_arg \<Rightarrow> string option \<Rightarrow>
   (fval ndarray \<times> 8 word ndarray) outcome" where
  "part env r args assets_in expression =
     read_operation (\<lambda>asset_urls. p_part env r asset_urls args) env r assets_in expression"

definition preview ::
  "('k, 'd) env \<Rightarrow> reader \<Rightarrow> 'k \<Rightarrow> assets_arg \<Rightarrow> string option \<Rightarrow>
   (fval ndarray \<times> 8 word ndarray) outcome" where
  "preview env r args assets_in expression =
     read_operation (\<lambda>asset_urls. p_preview env r asset_urls args) env r assets_in expression"

text \<open>
  \<^verbatim>\<open>point\<close> returns the per-asset value lists, or with an expression the evaluated
  array (which \<^verbatim>\<open>.tolist()\<close> turns into nested lists of the same values).
\<close>

datatype point_result = Values "fval list list" | Evaluated "fval ndarray"

definition point ::
  "('k, 'd) env \<Rightarrow> reader \<Rightarrow> 'k \<Rightarrow> assets_arg \<Rightarrow> string option \<Rightarrow> point_result outcome" where
  "point env r args assets_in expression =
     (case requested_assets env r assets_in expression of
        Inl err \<Rightarrow> ([], Inl err)
      | Inr names \<Rightarrow>
          (case p_get_href r names of
             Inl err \<Rightarrow> ([], Inl err)
           | Inr asset_urls \<Rightarrow>
               (case p_point env r asset_urls args of
                  (submitted, Inl err) \<Rightarrow> (submitted, Inl err)
                | (submitted, Inr pt) \<Rightarrow>
                    (case given_expression expression of
                       None \<Rightarrow> (submitted, Inr (Values pt))
                     | Some e \<Rightarrow>
                         (case p_apply_expression (evaluate env) (split_on CHR '','' e)
                                 names (Lists pt) of
                            Inl err \<Rightarrow> (submitted, Inl err)
                          | Inr a \<Rightarrow> (submitted, Inr (Evaluated a)))))))"

text \<open>
  \<^verbatim>\<open>stats\<close>, \<^verbatim>\<open>info\<close> and \<^verbatim>\<open>metadata\<close> have one body, which differs in the fan-out
  \<open>run\<close> only: resolve the names, read, and build
  \<^verbatim>\<open>{asset: results[ix] for ix, asset in enumerate(assets)}\<close>. Their \<^verbatim>\<open>assets\<close>
  argument has no default; \<^verbatim>\<open>None\<close> cannot be iterated.
\<close>

definition dict_operation ::
  "(string list \<Rightarrow> 'd list outcome) \<Rightarrow> reader \<Rightarrow> assets_arg \<Rightarrow> (string \<rightharpoonup> 'd) outcome" where
  "dict_operation run r assets_in =
     (case as_sequence assets_in of
        None \<Rightarrow> ([], Inl (TypeError ''NoneType object is not iterable''))
      | Some names \<Rightarrow>
          (case p_get_href r names of
             Inl err \<Rightarrow> ([], Inl err)
           | Inr asset_urls \<Rightarrow>
               (case run asset_urls of
                  (submitted, Inl err) \<Rightarrow> (submitted, Inl err)
                | (submitted, Inr results) \<Rightarrow>
                    (submitted,
                     Inr (py_dict (map (\<lambda>(ix, asset). (asset, results ! ix))
                                     (enumerate 0 names)))))))"

definition stats ::
  "('k, 'd) env \<Rightarrow> reader \<Rightarrow> assets_arg \<Rightarrow> 'k \<Rightarrow> (string \<rightharpoonup> 'd) outcome" where
  "stats env r assets_in args =
     dict_operation (\<lambda>asset_urls. p_stats env r asset_urls args) r assets_in"

definition info :: "('k, 'd) env \<Rightarrow> reader \<Rightarrow> assets_arg \<Rightarrow> (string \<rightharpoonup> 'd) outcome" where
  "info env r assets_in = dict_operation (\<lambda>asset_urls. p_info env r asset_urls) r assets_in"

definition metadata ::
  "('k, 'd) env \<Rightarrow> reader \<Rightarrow> assets_arg \<Rightarrow> 'k \<Rightarrow> (string \<rightharpoonup> 'd) outcome" where
  "metadata env r assets_in args =
     dict_operation (\<lambda>asset_urls. p_metadata env r asset_urls args) r assets_in"

subsection \<open>The selection policy in the words of the specification\<close>

text \<open>
  The reject rules in sequence, as the specification words them. \<open>given\<close> says when an
  optional filter counts as given.
\<close>

definition spec_rejects ::
  "(string set option \<Rightarrow> bool) \<Rightarrow> string \<Rightarrow> string \<Rightarrow> string set option \<Rightarrow> string set option \<Rightarrow>
   string set option \<Rightarrow> string set option \<Rightarrow> bool" where
  "spec_rejects given name ty inc exc inc_types exc_types =
     ((given exc \<and> in_opt name exc) \<or>
      ((given exc_types \<and> in_opt ty exc_types) \<or> (given inc \<and> \<not> in_opt name inc)) \<or>
      ((given inc_types \<and> \<not> in_opt ty inc_types) \<or> (given inc \<and> \<not> in_opt name inc)))"

definition spec_select ::
  "(string set option \<Rightarrow> bool) \<Rightarrow> stac_item \<Rightarrow> string set option \<Rightarrow> string set option \<Rightarrow>
   string set option \<Rightarrow> string set option \<Rightarrow> string list" where
  "spec_select given it inc exc inc_types exc_types =
     map fst (filter (\<lambda>(name, info).
                 \<not> spec_rejects given name (asset_type info) inc exc inc_types exc_types)
               (item_assets it))"

text \<open>A filter is passed when it is not \<^verbatim>\<open>None\<close>.\<close>

definition is_passed :: "string set option \<Rightarrow> bool" where
  "is_passed s = (s \<noteq> None)"

subsection \<open>Per-asset results that can be stacked\<close>

text \<open>
  Every pixel array has a band axis and the spatial shape of the first one, and every
  mask has the shape of the first mask.
\<close>

definition stackable :: "('a ndarray \<times> 8 word ndarray) list \<Rightarrow> bool" where
  "stackable results =
     list_all (\<lambda>r. shape (fst r) \<noteq> [] \<and>
                    tl (shape (fst r)) = tl (shape (fst (hd results))) \<and>
                    shape (snd r) = shape (snd (hd results))) results"

subsection \<open>The results of the dictionary operations\<close>

text \<open>
  A mapping that takes each requested name to the result of reading that asset's own
  location with \<open>worker\<close>, and has no other key.
\<close>

definition own_results ::
  "reader \<Rightarrow> (string \<Rightarrow> error + 'd) \<Rightarrow> string list \<Rightarrow> (string \<rightharpoonup> 'd) \<Rightarrow> bool" where
  "own_results r worker names m =
     (dom m = set names \<and>
      list_all (\<lambda>n. case p_get_href r [n] of
                       Inr [url] \<Rightarrow> (case worker url of Inr v \<Rightarrow> m n = Some v | Inl _ \<Rightarrow> False)
                     | _ \<Rightarrow> False) names)"

subsection \<open>A small catalog item and its collaborators\<close>

text \<open>
  An item with a thumbnail and two single-band rasters of one row and two pixels, the
  reader opened on it with the default filters, and collaborators that serve it: band
  \<open>B01\<close> holds 1 and 0 with its second pixel masked, band \<open>B02\<close> holds 0 and 0.
\<close>

definition ex_item :: stac_item where
  "ex_item = \<lparr>bbox = [23, 31, 24, 32],
     item_assets =
       [(''thumbnail'', \<lparr>asset_href = ''https://x/thumbnail.png'', asset_type = ''image/png''\<rparr>),
        (''B01'', \<lparr>asset_href = ''https://x/B01.tif'', asset_type = ''image/tiff''\<rparr>),
        (''B02'', \<lparr>asset_href = ''https://x/B02.tif'', asset_type = ''image/tiff''\<rparr>)]\<rparr>"

definition ex_fetch :: "string \<Rightarrow> error + stac_item" where
  "ex_fetch path = Inr ex_item"

definition ex_open :: reader where
  "ex_open = (STACReader ''item.json'')
     \<lparr>item := Some ex_item, bounds := Some [23, 31, 24, 32], assets := Some [''B01'', ''B02'']\<rparr>"

definition ex_read :: "string \<Rightarrow> error + (fval ndarray \<times> 8 word ndarray)" where
  "ex_read location =
     (if location = ''https://x/B01.tif''
      then Inr (\<lparr>shape = [1, 1, 2], elems = [Finite 1, Finite 0]\<rparr>,
                \<lparr>shape = [1, 2], elems = [255, 0]\<rparr>)
      else if location = ''https://x/B02.tif''
      then Inr (\<lparr>shape = [1, 1, 2], elems = [Finite 0, Finite 0]\<rparr>,
                \<lparr>shape = [1, 2], elems = [255, 255]\<rparr>)
      else Inl (External ''no such file''))"

text \<open>Division as numexpr computes it on doubles: a zero divisor gives NaN or an infinity.\<close>

fun ex_divide :: "fval \<Rightarrow> fval \<Rightarrow> fval" where
  "ex_divide (Finite x) (Finite y) =
     (if y \<noteq> 0 then Finite (x / y)
      else if x = 0 then NaN else if 0 < x then PosInf else NegInf)"
| "ex_divide x y = NaN"

definition ex_evaluate :: "string \<Rightarrow> (string \<rightharpoonup> fval ndarray) \<Rightarrow> error + fval ndarray" where
  "ex_evaluate expr local_dict =
     (if expr = ''B01/B02'' then
        (case (local_dict ''B01'', local_dict ''B02'') of
           (Some a, Some b) \<Rightarrow>
             Inr \<lparr>shape = shape a, elems = map (\<lambda>(x, y). ex_divide x y) (zip (elems a) (elems b))\<rparr>
         | _ \<Rightarrow> Inl (KeyError ''B01''))
      else Inl (External ''unsupported expression''))"

definition ex_env :: "(unit, string) env" where
  "ex_env = \<lparr>list_set = remdups,
             evaluate = ex_evaluate,
             cog_tile = (\<lambda>location scheme args. ex_read location),
             cog_part = (\<lambda>location args. ex_read location),
             cog_preview = (\<lambda>location args. ex_read location),
             cog_point = (\<lambda>location args. Inr [Finite 1]),
             cog_stats = (\<lambda>location args. Inr (''statistics of '' @ location)),
             cog_info = (\<lambda>location scheme. Inr (''info of '' @ location)),
             cog_metadata = (\<lambda>location args. Inr (''metadata of '' @ location))\<rparr>"

definition ex_stack :: "fval ndarray" where
  "ex_stack = \<lparr>shape = [2, 1, 2], elems = [Finite 1, Finite 0, Finite 0, Finite 0]\<rparr>"

definition ex_results :: "(fval ndarray \<times> 8 word ndarray) list" where
  "ex_results =
     [(\<lparr>shape = [1, 1, 2], elems = [Finite 1, Finite 0]\<rparr>, \<lparr>shape = [1, 2], elems = [255, 0]\<rparr>),
      (\<lparr>shape = [1, 1, 2], elems = [Finite 0, Finite 0]\<rparr>, \<lparr>shape = [1, 2], elems = [255, 255]\<rparr>)]"

section \<open>Asset selection\<close>

lemma get_assets_loop_filter:
  "get_assets_loop am inc exc inc_types exc_types =
     map fst (filter (\<lambda>(name, info).
                 \<not> spec_rejects truthy_set name (asset_type info) inc exc inc_types exc_types) am)"
  by (induction am inc exc inc_types exc_types rule: get_assets_loop.induct)
     (auto simp: spec_rejects_def Let_def)

lemma p_get_assets_keys:
  "set (p_get_assets it inc exc inc_types exc_types) \<subseteq> fst ` set (item_assets it)"
  by (auto simp: p_get_assets_def get_assets_loop_filter)

lemma ex_item_distinct: "distinct (map fst (item_assets ex_item))"
  by (simp add: ex_item_def)

lemma ex_enter: "reader_enter ex_fetch (STACReader ''item.json'') = Inr ex_open"
  by (simp add: reader_enter_def STACReader_def ex_fetch_def ex_open_def ex_item_def
      p_get_assets_def truthy_set_def in_opt_def DEFAULT_VALID_TYPE_def)

text \<open>
  Claim C3, as amended: a filter counts as given when it is a non-empty set (an empty
  set is treated like an absent filter). For every catalog item and every combination of
  the four optional filters, the selector returns, in the asset map's iteration order and
  without duplicates, exactly the names that pass the reject rules in sequence: reject if
  the exclude set contains the name; reject if the exclude-types set contains the media
  type or the include set is given and does not contain the name; reject if the
  include-types set is given and does not contain the media type or the include set is
  given and does not contain the name; otherwise accept. Opening the reader succeeds
  with that list, empty or not.
\<close>

theorem selector_policy:
  assumes "distinct (map fst (item_assets it))"
  shows "p_get_assets it inc exc inc_types exc_types =
           spec_select truthy_set it inc exc inc_types exc_types
       \<and> distinct (p_get_assets it inc exc inc_types exc_types)
       \<and> subseq (p_get_assets it inc exc inc_types exc_types) (map fst (item_assets it))
       \<and> (\<exists>r'. reader_enter fetch
                  (r\<lparr>item := Some it, include_assets := inc, exclude_assets := exc,
                     include_asset_types := inc_types, exclude_asset_types := exc_types\<rparr>) = Inr r'
              \<and> assets r' = Some (p_get_assets it inc exc inc_types exc_types))"
proof -
  have eq: "p_get_assets it inc exc inc_types exc_types =
           spec_select truthy_set it inc exc inc_types exc_types"
    by (simp add: p_get_assets_def spec_select_def get_assets_loop_filter)
  have d: "distinct (spec_select truthy_set it inc exc inc_types exc_types)"
    unfolding spec_select_def using assms by (simp add: distinct_map_filter)
  have s: "subseq (spec_select truthy_set it inc exc inc_types exc_types) (map fst (item_assets it))"
    unfolding spec_select_def by (simp add: subseq_map)
  have e: "\<exists>r'. reader_enter fetch
                  (r\<lparr>item := Some it, include_assets := inc, exclude_assets := exc,
                     include_asset_types := inc_types, exclude_asset_types := exc_types\<rparr>) = Inr r'
              \<and> assets r' = Some (p_get_assets it inc exc inc_types exc_types)"
    by (simp add: reader_enter_def)
  from eq d s e show ?thesis by simp
qed

theorem selector_policy_witness:
  "distinct (map fst (item_assets ex_item)) \<and>
   p_get_assets ex_item (Some {''B01'', ''thumbnail'', ''B1''}) (Some {''B02''}) None None =
     [''thumbnail'', ''B01''] \<and>
   p_get_assets ex_item (Some {''B1''}) None (Some DEFAULT_VALID_TYPE) None = [] \<and>
   distinct (p_get_assets ex_item (Some {''B01'', ''thumbnail'', ''B1''}) (Some {''B02''}) None None)"
proof -
  note p = selector_policy [OF ex_item_distinct]
  have a: "spec_select truthy_set ex_item (Some {''B01'', ''thumbnail'', ''B1''}) (Some {''B02''})
             None None = [''thumbnail'', ''B01'']"
    by (simp add: spec_select_def spec_rejects_def ex_item_def truthy_set_def in_opt_def)
  have b: "spec_select truthy_set ex_item (Some {''B1''}) None (Some DEFAULT_VALID_TYPE) None = []"
    by (simp add: spec_select_def spec_rejects_def ex_item_def truthy_set_def in_opt_def)
  from p [of "Some {''B01'', ''thumbnail'', ''B1''}" "Some {''B02''}" None None] a
  have 1: "p_get_assets ex_item (Some {''B01'', ''thumbnail'', ''B1''}) (Some {''B02''}) None None =
     [''thumbnail'', ''B01'']"
    and 2: "distinct (p_get_assets ex_item (Some {''B01'', ''thumbnail'', ''B1''}) (Some {''B02''})
              None None)"
    by simp_all
  from p [of "Some {''B1''}" None "Some DEFAULT_VALID_TYPE" None] b
  have 3: "p_get_assets ex_item (Some {''B1''}) None (Some DEFAULT_VALID_TYPE) None = []"
    by simp
  from ex_item_distinct 1 2 3 show ?thesis by simp
qed

text \<open>
  Claim C3 as stated, with every filter that is passed counted as given, fails for an
  include set that is passed empty: the rules as stated reject every asset, the selector
  keeps both rasters.
\<close>

theorem selector_empty_include_counterexample:
  "p_get_assets ex_item (Some {}) None (Some DEFAULT_VALID_TYPE) None = [''B01'', ''B02''] \<and>
   spec_select is_passed ex_item (Some {}) None (Some DEFAULT_VALID_TYPE) None = []"
  by (simp add: p_get_assets_def ex_item_def spec_select_def spec_rejects_def is_passed_def
      truthy_set_def in_opt_def DEFAULT_VALID_TYPE_def)

section \<open>Asset resolution\<close>

lemma enter_opened:
  assumes "reader_enter fetch r0 = Inr r"
  shows "\<exists>it known. item r = Some it \<and> assets r = Some known \<and>
           set known \<subseteq> fst ` set (item_assets it)"
  using assms p_get_assets_keys
  by (auto simp: reader_enter_def split: option.splits sum.splits)

lemma check_names_None:
  "check_names (Some known) names = None \<longleftrightarrow> set names \<subseteq> set known"
  by (induction names) auto

lemma check_names_Some:
  "check_names (Some known) names = Some e \<Longrightarrow> \<exists>msg. e = InvalidBandName msg"
  by (induction names) (auto split: if_splits)

lemma lookup_hrefs_ok:
  "set names \<subseteq> fst ` set (item_assets it) \<Longrightarrow>
   \<exists>hrefs. lookup_hrefs (Some it) names = Inr hrefs \<and> length hrefs = length names \<and>
     (\<forall>i<length names. \<exists>info. map_of (item_assets it) (names ! i) = Some info \<and>
         hrefs ! i = asset_href info)"
proof (induction names)
  case Nil
  then show ?case by simp
next
  case (Cons n names)
  then obtain hrefs where h: "lookup_hrefs (Some it) names = Inr hrefs"
      "length hrefs = length names"
      "\<forall>i<length names. \<exists>info. map_of (item_assets it) (names ! i) = Some info \<and>
         hrefs ! i = asset_href info"
    by auto
  from Cons.prems have "n \<in> fst ` set (item_assets it)" by simp
  then obtain info where i: "map_of (item_assets it) n = Some info"
    by (metis domD dom_map_of_conv_image_fst)
  have "\<forall>i<length (n # names). \<exists>info'. map_of (item_assets it) ((n # names) ! i) = Some info' \<and>
         (asset_href info # hrefs) ! i = asset_href info'"
  proof (intro allI impI)
    fix i assume "i < length (n # names)"
    then show "\<exists>info'. map_of (item_assets it) ((n # names) ! i) = Some info' \<and>
         (asset_href info # hrefs) ! i = asset_href info'"
      using h(3) i by (cases i) auto
  qed
  with h i show ?case by simp
qed

lemma read_operation_unresolved:
  "requested_assets env r a e = Inr names \<Longrightarrow> p_get_href r names = Inl err \<Longrightarrow>
   read_operation run env r a e = ([], Inl err)"
  by (simp add: read_operation_def)

lemma point_unresolved:
  "requested_assets env r a e = Inr names \<Longrightarrow> p_get_href r names = Inl err \<Longrightarrow>
   point env r args a e = ([], Inl err)"
  by (simp add: point_def)

lemma dict_operation_unresolved:
  "as_sequence a = Some names \<Longrightarrow> p_get_href r names = Inl err \<Longrightarrow>
   dict_operation run r a = ([], Inl err)"
  by (simp add: dict_operation_def)

text \<open>
  Claim C2: on an opened reader, \<open>p_get_href\<close> raises the invalid-asset-name error if and
  only if some requested name is absent from the eligible list computed at open (whatever
  the item's own asset map holds); the error then is the outcome of every operation on
  those names with no location submitted to a raster reader; and when every name is
  eligible it returns one location per requested name, in request order.
\<close>

theorem get_href_unknown_asset:
  assumes "reader_enter fetch r0 = Inr r"
  shows "\<exists>eligible it. assets r = Some eligible \<and> item r = Some it \<and>
    ((\<exists>msg. p_get_href r names = Inl (InvalidBandName msg)) \<longleftrightarrow>
       (\<exists>n\<in>set names. n \<notin> set eligible)) \<and>
    ((\<exists>n\<in>set names. n \<notin> set eligible) \<longrightarrow>
       (\<exists>msg. p_get_href r names = Inl (InvalidBandName msg) \<and>
          (requested_assets env r a e = Inr names \<longrightarrow>
             tile env r args a e = ([], Inl (InvalidBandName msg)) \<and>
             part env r args a e = ([], Inl (InvalidBandName msg)) \<and>
             preview env r args a e = ([], Inl (InvalidBandName msg)) \<and>
             point env r args a e = ([], Inl (InvalidBandName msg))) \<and>
          (as_sequence a = Some names \<longrightarrow>
             stats env r a args = ([], Inl (InvalidBandName msg)) \<and>
             info env r a = ([], Inl (InvalidBandName msg)) \<and>
             metadata env r a args = ([], Inl (InvalidBandName msg))))) \<and>
    ((\<forall>n\<in>set names. n \<in> set eligible) \<longrightarrow>
       (\<exists>hrefs. p_get_href r names = Inr hrefs \<and> length hrefs = length names \<and>
          (\<forall>i<length names. \<exists>info. map_of (item_assets it) (names ! i) = Some info \<and>
              hrefs ! i = asset_href info)))"
proof -
  from enter_opened [OF assms] obtain it known where
    o: "item r = Some it" "assets r = Some known" "set known \<subseteq> fst ` set (item_assets it)"
    by blast
  have bad: "\<exists>msg. p_get_href r names = Inl (InvalidBandName msg)"
    if "\<exists>n\<in>set names. n \<notin> set known"
  proof -
    from that have "check_names (Some known) names \<noteq> None"
      by (auto simp: check_names_None)
    then obtain e where "check_names (Some known) names = Some e" by auto
    with check_names_Some [OF this] o show ?thesis
      by (auto simp: p_get_href_def)
  qed
  have good: "\<exists>hrefs. p_get_href r names = Inr hrefs \<and> length hrefs = length names \<and>
          (\<forall>i<length names. \<exists>info. map_of (item_assets it) (names ! i) = Some info \<and>
              hrefs ! i = asset_href info)"
    if "\<forall>n\<in>set names. n \<in> set known"
  proof -
    from that have c: "check_names (Some known) names = None"
      by (auto simp: check_names_None)
    from that o(3) have "set names \<subseteq> fst ` set (item_assets it)" by blast
    from lookup_hrefs_ok [OF this] c o show ?thesis
      by (simp add: p_get_href_def)
  qed
  have iff: "(\<exists>msg. p_get_href r names = Inl (InvalidBandName msg)) \<longleftrightarrow>
       (\<exists>n\<in>set names. n \<notin> set known)"
    using bad good by (metis Inl_Inr_False)
  have ops: "\<exists>msg. p_get_href r names = Inl (InvalidBandName msg) \<and>
          (requested_assets env r a e = Inr names \<longrightarrow>
             tile env r args a e = ([], Inl (InvalidBandName msg)) \<and>
             part env r args a e = ([], Inl (InvalidBandName msg)) \<and>
             preview env r args a e = ([], Inl (InvalidBandName msg)) \<and>
             point env r args a e = ([], Inl (InvalidBandName msg))) \<and>
          (as_sequence a = Some names \<longrightarrow>
             stats env r a args = ([], Inl (InvalidBandName msg)) \<and>
             info env r a = ([], Inl (InvalidBandName msg)) \<and>
             metadata env r a args = ([], Inl (InvalidBandName msg)))"
    if "\<exists>n\<in>set names. n \<notin> set known"
  proof -
    from bad [OF that] obtain msg where m: "p_get_href r names = Inl (InvalidBandName msg)"
      by blast
    then show ?thesis
      by (auto simp: tile_def part_def preview_def stats_def info_def metadata_def
            read_operation_unresolved point_unresolved dict_operation_unresolved)
  qed
  from o iff ops good show ?thesis by blast
qed

theorem get_href_unknown_asset_witness:
  "reader_enter ex_fetch (STACReader ''item.json'') = Inr ex_open \<and>
   map_of (item_assets ex_item) ''thumbnail'' \<noteq> None \<and>
   p_get_href ex_open [''B01'', ''thumbnail''] =
     Inl (InvalidBandName ''thumbnail is not a valid asset name.'') \<and>
   tile ex_env ex_open () (AssetList [''B01'', ''thumbnail'']) None =
     ([], Inl (InvalidBandName ''thumbnail is not a valid asset name.'')) \<and>
   stats ex_env ex_open (AssetList [''B01'', ''thumbnail'']) () =
     ([], Inl (InvalidBandName ''thumbnail is not a valid asset name.'')) \<and>
   p_get_href ex_open [''B02'', ''B01''] = Inr [''https://x/B02.tif'', ''https://x/B01.tif'']"
proof -
  have a: "assets ex_open = Some [''B01'', ''B02'']"
    by (simp add: ex_open_def)
  have g: "p_get_href ex_open [''B01'', ''thumbnail''] =
     Inl (InvalidBandName ''thumbnail is not a valid asset name.'')"
    by (simp add: p_get_href_def a)
  have rq: "requested_assets ex_env ex_open (AssetList [''B01'', ''thumbnail'']) None =
      Inr [''B01'', ''thumbnail'']"
    by (simp add: requested_assets_def given_expression_def as_sequence_def)
  have sq: "as_sequence (AssetList [''B01'', ''thumbnail'']) = Some [''B01'', ''thumbnail'']"
    by (simp add: as_sequence_def)
  from get_href_unknown_asset [OF ex_enter, of "[''B01'', ''thumbnail'']" ex_env
      "AssetList [''B01'', ''thumbnail'']" None "()"] a g rq sq
  have ops: "tile ex_env ex_open () (AssetList [''B01'', ''thumbnail'']) None =
     ([], Inl (InvalidBandName ''thumbnail is not a valid asset name.'')) \<and>
   stats ex_env ex_open (AssetList [''B01'', ''thumbnail'']) () =
     ([], Inl (InvalidBandName ''thumbnail is not a valid asset name.''))"
    by auto
  have ok: "p_get_href ex_open [''B02'', ''B01''] = Inr [''https://x/B02.tif'', ''https://x/B01.tif'']"
    by (simp add: p_get_href_def a) (simp add: ex_open_def ex_item_def)
  have t: "map_of (item_assets ex_item) ''thumbnail'' \<noteq> None"
    by (simp add: ex_item_def)
  from ex_enter t g ops ok show ?thesis by simp
qed

section \<open>Stacking\<close>

lemma stack_results_Inr_iff:
  assumes "results \<noteq> []"
  shows "(\<exists>d m. stack_results results = Inr (d, m)) \<longleftrightarrow> stackable results"
proof -
  from assms obtain r rs where rs: "results = r # rs" by (cases results) auto
  have c: "(\<exists>d. concatenate (map fst results) = Inr d) \<longleftrightarrow>
      (\<forall>x\<in>set results. shape (fst x) \<noteq> [] \<and> tl (shape (fst x)) = tl (shape (fst r)))"
    unfolding rs concatenate_def by (auto simp: list_ex_iff)
  have a: "(\<exists>b. np_all_axis0 (map snd results) = Inr b) \<longleftrightarrow>
      (\<forall>x\<in>set results. shape (snd x) = shape (snd r))"
    unfolding rs np_all_axis0_def by (auto simp: list_ex_iff)
  have "(\<exists>d m. stack_results results = Inr (d, m)) \<longleftrightarrow>
     (\<exists>d. concatenate (map fst results) = Inr d) \<and> (\<exists>b. np_all_axis0 (map snd results) = Inr b)"
    using assms by (auto simp: stack_results_def split: sum.splits)
  also have "\<dots> \<longleftrightarrow> stackable results"
    unfolding c a by (auto simp: stackable_def list_all_iff rs)
  finally show ?thesis .
qed

lemma stack_results_value:
  assumes "stack_results results = Inr (d, m)"
  shows "shape d = sum_list (map (\<lambda>r. hd (shape (fst r))) results) # tl (shape (fst (hd results)))"
    and "elems d = concat (map (\<lambda>r. elems (fst r)) results)"
    and "shape m = shape (snd (hd results))"
    and "elems m = map (\<lambda>i. if list_all (\<lambda>r. elems (snd r) ! i \<noteq> 0) results then 255 else 0)
                     [0..<prod_list (shape (snd (hd results)))]"
proof -
  from assms obtain r rs where rs: "results = r # rs"
    by (cases results) (auto simp: stack_results_def)
  from assms obtain d0 b where c: "concatenate (map fst results) = Inr d0"
    and a: "np_all_axis0 (map snd results) = Inr b"
    and dm: "d = d0" "m = times_255 (astype_uint8 b)"
    by (auto simp: stack_results_def rs split: sum.splits)
  from c have
    d: "d0 = \<lparr>shape = sum_list (map (\<lambda>x. hd (shape x)) (map fst results)) # tl (shape (fst r)),
             elems = concat (map elems (map fst results))\<rparr>"
    unfolding rs concatenate_def by (simp split: if_splits)
  from a have b: "b = \<lparr>shape = shape (snd r),
                elems = map (\<lambda>i. list_all (\<lambda>m. elems m ! i \<noteq> 0) (map snd results))
                          [0..<prod_list (shape (snd r))]\<rparr>"
    unfolding rs np_all_axis0_def by (simp split: if_splits)
  show "shape d = sum_list (map (\<lambda>r. hd (shape (fst r))) results) # tl (shape (fst (hd results)))"
    by (simp add: dm d rs comp_def)
  show "elems d = concat (map (\<lambda>r. elems (fst r)) results)"
    by (simp add: dm d rs comp_def)
  show "shape m = shape (snd (hd results))"
    by (simp add: dm b rs times_255_def astype_uint8_def)
  show "elems m = map (\<lambda>i. if list_all (\<lambda>r. elems (snd r) ! i \<noteq> 0) results then 255 else 0)
                     [0..<prod_list (shape (snd (hd results)))]"
    by (simp add: dm b rs times_255_def astype_uint8_def list_all_iff)
qed


lemma concat_length_same_tail:
  assumes "\<forall>a\<in>set arrs. wf_array a \<and> shape a \<noteq> [] \<and> tl (shape a) = s"
  shows "length (concat (map elems arrs)) = sum_list (map (\<lambda>x. hd (shape x)) arrs) * prod_list s"
  using assms
proof (induction arrs)
  case Nil
  then show ?case by simp
next
  case (Cons a arrs)
  then have "wf_array a" "shape a \<noteq> []" "tl (shape a) = s" by auto
  then have "length (elems a) = hd (shape a) * prod_list s"
    by (cases "shape a") (auto simp: wf_array_def)
  with Cons show ?case by (simp add: algebra_simps)
qed

lemma stack_results_wf:
  assumes "stack_results results = Inr (d, m)"
    and "\<forall>r\<in>set results. wf_array (fst r)"
  shows "wf_array d" and "wf_array m"
proof -
  from assms obtain r rs where rs: "results = r # rs"
    by (cases results) (auto simp: stack_results_def)
  have "\<exists>d m. stack_results results = Inr (d, m)" using assms by blast
  then have st: "stackable results"
    using stack_results_Inr_iff rs by blast
  have "\<forall>a\<in>set (map fst results). wf_array a \<and> shape a \<noteq> [] \<and> tl (shape a) = tl (shape (fst r))"
    using st assms(2) by (auto simp: stackable_def list_all_iff rs)
  from concat_length_same_tail [OF this] show "wf_array d"
    using stack_results_value(1,2) [OF assms(1)]
    by (simp add: wf_array_def rs comp_def)
  show "wf_array m"
    using stack_results_value(3,4) [OF assms(1)] by (simp add: wf_array_def)
qed

lemma assemble_collect:
  "collect worker locations = Inr results \<Longrightarrow>
   assemble worker locations = (locations, stack_results results)"
  by (simp add: assemble_def executor_map_def)


text \<open>
  Claim C1: for a non-empty list of per-asset (pixel array, mask) results, as
  \<open>p_tile\<close>, \<open>p_part\<close> and \<open>p_preview\<close> merge them: a merged result exists exactly when
  the results can be stacked; its band count is the sum of the per-asset band counts and
  its elements are the per-asset elements in input order; its mask has the shape of a
  per-asset mask and is 255 where every per-asset mask is non-zero and 0 elsewhere, so a
  pixel that one asset marks invalid is invalid in the merged mask.
\<close>

theorem stack_bands_and_mask:
  assumes "results \<noteq> []"
  shows "((\<exists>d m. stack_results results = Inr (d, m)) \<longleftrightarrow> stackable results) \<and>
    (\<forall>d m. stack_results results = Inr (d, m) \<longrightarrow>
       hd (shape d) = sum_list (map (\<lambda>r. hd (shape (fst r))) results) \<and>
       elems d = concat (map (\<lambda>r. elems (fst r)) results) \<and>
       shape m = shape (snd (hd results)) \<and>
       length (elems m) = prod_list (shape m) \<and>
       (\<forall>i<length (elems m).
          elems m ! i = (if \<forall>r\<in>set results. elems (snd r) ! i \<noteq> 0 then 255 else 0)) \<and>
       (\<forall>r\<in>set results. \<forall>i<length (elems m). elems (snd r) ! i = 0 \<longrightarrow> elems m ! i = 0) \<and>
       ((\<forall>r\<in>set results. wf_array (fst r)) \<longrightarrow> wf_array d)) \<and>
    (collect (\<lambda>asset. cog_tile env asset (tms rd) args) locations = Inr results \<longrightarrow>
       p_tile env rd locations args = (locations, stack_results results)) \<and>
    (collect (\<lambda>asset. cog_part env asset args) locations = Inr results \<longrightarrow>
       p_part env rd locations args = (locations, stack_results results)) \<and>
    (collect (\<lambda>asset. cog_preview env asset args) locations = Inr results \<longrightarrow>
       p_preview env rd locations args = (locations, stack_results results))"
proof (intro conjI allI impI)
  show "(\<exists>d m. stack_results results = Inr (d, m)) \<longleftrightarrow> stackable results"
    by (rule stack_results_Inr_iff [OF assms])
next
  fix d m assume s: "stack_results results = Inr (d, m)"
  note v = stack_results_value [OF s]
  show "hd (shape d) = sum_list (map (\<lambda>r. hd (shape (fst r))) results)"
    by (simp add: v(1))
  show "elems d = concat (map (\<lambda>r. elems (fst r)) results)"
    by (rule v(2))
  show "shape m = shape (snd (hd results))"
    by (rule v(3))
  show "length (elems m) = prod_list (shape m)"
    by (simp add: v(3) v(4))
  have el: "elems m ! i = (if \<forall>r\<in>set results. elems (snd r) ! i \<noteq> 0 then 255 else 0)"
    if "i < length (elems m)" for i
    using that by (simp add: v(4) list_all_iff)
  then show "\<And>i. i < length (elems m) \<Longrightarrow>
      elems m ! i = (if \<forall>r\<in>set results. elems (snd r) ! i \<noteq> 0 then 255 else 0)" .
  show "\<forall>r\<in>set results. \<forall>i<length (elems m). elems (snd r) ! i = 0 \<longrightarrow> elems m ! i = 0"
    using el by auto
  show "\<forall>r\<in>set results. wf_array (fst r) \<Longrightarrow> wf_array d"
    by (rule stack_results_wf(1) [OF s])
next
  assume "collect (\<lambda>asset. cog_tile env asset (tms rd) args) locations = Inr results"
  then show "p_tile env rd locations args = (locations, stack_results results)"
    by (simp add: p_tile_def assemble_collect)
next
  assume "collect (\<lambda>asset. cog_part env asset args) locations = Inr results"
  then show "p_part env rd locations args = (locations, stack_results results)"
    by (simp add: p_part_def assemble_collect)
next
  assume "collect (\<lambda>asset. cog_preview env asset args) locations = Inr results"
  then show "p_preview env rd locations args = (locations, stack_results results)"
    by (simp add: p_preview_def assemble_collect)
qed

theorem stack_bands_and_mask_witness:
  "ex_results \<noteq> [] \<and> stackable ex_results \<and>
   stack_results ex_results =
     Inr (\<lparr>shape = [2, 1, 2], elems = [Finite 1, Finite 0, Finite 0, Finite 0]\<rparr>,
          \<lparr>shape = [1, 2], elems = [255, 0]\<rparr>) \<and>
   p_tile ex_env ex_open [''https://x/B01.tif'', ''https://x/B02.tif''] () =
     ([''https://x/B01.tif'', ''https://x/B02.tif''], stack_results ex_results)"
proof -
  have n: "ex_results \<noteq> []"
    by (simp add: ex_results_def)
  have v: "stack_results ex_results =
     Inr (\<lparr>shape = [2, 1, 2], elems = [Finite 1, Finite 0, Finite 0, Finite 0]\<rparr>,
          \<lparr>shape = [1, 2], elems = [255, 0]\<rparr>)"
    by (simp add: stack_results_def ex_results_def concatenate_def np_all_axis0_def
        times_255_def astype_uint8_def upt_rec)
  have c: "collect (\<lambda>asset. cog_tile ex_env asset (tms ex_open) ())
             [''https://x/B01.tif'', ''https://x/B02.tif''] = Inr ex_results"
    by (simp add: ex_env_def ex_read_def ex_results_def)
  from stack_bands_and_mask [OF n, of ex_env ex_open "()"
      "[''https://x/B01.tif'', ''https://x/B02.tif'']"] v c
  have "stackable ex_results"
    and "p_tile ex_env ex_open [''https://x/B01.tif'', ''https://x/B02.tif''] () =
     ([''https://x/B01.tif'', ''https://x/B02.tif''], stack_results ex_results)"
    by auto
  with n v show ?thesis by simp
qed

section \<open>Expression parsing\<close>

lemma remdups_list_set: "py_list_set remdups"
  by (simp add: py_list_set_def)

lemma distinct_singleton_set: "distinct ys \<Longrightarrow> set ys = {x} \<Longrightarrow> ys = [x]"
proof (cases ys)
  case Nil
  assume "set ys = {x}"
  with Nil show ?thesis by simp
next
  case (Cons y zs)
  assume d: "distinct ys" and s: "set ys = {x}"
  from s Cons have y: "y = x" by auto
  from d s Cons y have "set zs \<subseteq> {x}" "x \<notin> set zs" by auto
  then have "zs = []" by (cases zs) auto
  with Cons y show ?thesis by simp
qed

lemma findall_empty_pattern: "re_findall_from [[]] False e = replicate (Suc (length e)) []"
proof -
  have F: "re_findall_from [[]] False s = [] # re_findall_from [[]] True s" for s
    by (subst re_findall_from.simps) simp
  have Tn: "re_findall_from [[]] True [] = []"
    by (subst re_findall_from.simps) simp
  have Tc: "re_findall_from [[]] True (c # s) = re_findall_from [[]] False s" for c s
    by (subst re_findall_from.simps) simp
  have "re_findall_from [[]] True e = replicate (length e) []"
    by (induction e) (simp_all add: F Tn Tc)
  then show ?thesis by (simp add: F)
qed

lemma compile_no_names: "re_compile (str_join ''|'' (sorted_reverse [])) = [[]]"
  by (simp add: re_compile_def sorted_reverse_def)

lemma parse_no_names:
  assumes "py_list_set ls" and "assets r = Some []"
  shows "p_parse_expression ls r e = Inr ['''']"
proof -
  have "re_findall (re_compile (str_join ''|'' (sorted_reverse []))) e =
      replicate (Suc (length e)) []"
    by (simp add: compile_no_names re_findall_def findall_empty_pattern)
  moreover have "ls (replicate (Suc (length e)) []) = [[]]"
  proof (rule distinct_singleton_set)
    from assms(1) show "distinct (ls (replicate (Suc (length e)) []))"
      by (simp add: py_list_set_def)
    from assms(1) have "set (ls (replicate (Suc (length e)) [])) = set (replicate (Suc (length e)) [])"
      unfolding py_list_set_def by blast
    then show "set (ls (replicate (Suc (length e)) [])) = {[]}"
      by (simp only: set_replicate_Suc)
  qed
  ultimately show ?thesis
    using assms(2) by (simp add: p_parse_expression_def)
qed

text \<open>
  Claim C5 says that with no known asset names the expression parser returns no names.
  The code builds the empty pattern, which matches the empty string at every position:
  for every expression the parser returns the one-element list holding the empty
  string, and an operation called with a non-empty expression then fails with the
  invalid-asset-name error for the empty name, not with the no-assets error.
\<close>

theorem parse_expression_no_known_names:
  assumes "py_list_set (list_set env)" and "assets r = Some []" and "e \<noteq> []"
  shows "p_parse_expression (list_set env) r e = Inr [''''] \<and>
         tile env r args a (Some e) = ([], Inl (InvalidBandName '' is not a valid asset name.''))"
proof -
  note p = parse_no_names [OF assms(1,2), of e]
  have rq: "requested_assets env r a (Some e) = Inr ['''']"
    using assms(3) by (simp add: requested_assets_def given_expression_def p)
  have "p_get_href r [''''] = Inl (InvalidBandName '' is not a valid asset name.'')"
    using assms(2) by (simp add: p_get_href_def)
  with rq have "tile env r args a (Some e) =
      ([], Inl (InvalidBandName '' is not a valid asset name.''))"
    by (simp add: tile_def read_operation_def)
  with p show ?thesis by simp
qed

lemma ex_env_list_set: "py_list_set (list_set ex_env)"
  by (simp add: ex_env_def py_list_set_def)

theorem parse_expression_no_known_names_witness:
  "py_list_set (list_set ex_env) \<and>
   p_get_assets ex_item (Some {''B1''}) None (Some DEFAULT_VALID_TYPE) None = [] \<and>
   p_parse_expression (list_set ex_env) (ex_open\<lparr>assets := Some []\<rparr>) ''B01/B02'' = Inr [''''] \<and>
   tile ex_env (ex_open\<lparr>assets := Some []\<rparr>) () NoAssets (Some ''B01/B02'') =
     ([], Inl (InvalidBandName '' is not a valid asset name.''))"
proof -
  have a: "assets (ex_open\<lparr>assets := Some []\<rparr>) = Some []" by simp
  have n: "''B01/B02'' \<noteq> []" by simp
  have s: "p_get_assets ex_item (Some {''B1''}) None (Some DEFAULT_VALID_TYPE) None = []"
    by (simp add: p_get_assets_def ex_item_def truthy_set_def in_opt_def)
  from parse_expression_no_known_names [OF ex_env_list_set a n, of "()" NoAssets] ex_env_list_set s
  show ?thesis by simp
qed

lemma sorted_reverse_B1_B10:
  "sorted_reverse [''B1'', ''B10''] = [''B10'', ''B1'']"
  "sorted_reverse [''B10'', ''B1''] = [''B10'', ''B1'']"
  by code_simp+

lemma compile_B10_B1: "re_compile (str_join ''|'' [''B10'', ''B1'']) = [''B10'', ''B1'']"
  by (simp add: re_compile_def)

lemma findall_B10_B1: "re_findall [''B10'', ''B1''] ''B10/B1'' = [''B10'', ''B1'']"
  by code_simp

lemma findall_B1_B10: "re_findall [''B1'', ''B10''] ''B10/B1'' = [''B1'', ''B1'']"
  by code_simp

text \<open>
  Claim C4: with the known names \<open>B1\<close> and \<open>B10\<close>, parsing \<open>B10/B1\<close> returns exactly the
  set of the two names; the pattern built from the names in reverse lexicographic order
  tries \<open>B10\<close> before \<open>B1\<close> and finds \<open>B10\<close> then \<open>B1\<close>, where the opposite order would
  find \<open>B1\<close> twice.
\<close>

theorem parse_overlapping_names:
  assumes "py_list_set ls" and "assets r = Some known"
    and "known = [''B1'', ''B10''] \<or> known = [''B10'', ''B1'']"
  shows "\<exists>names. p_parse_expression ls r ''B10/B1'' = Inr names \<and>
           set names = {''B1'', ''B10''} \<and> distinct names \<and>
           re_compile (str_join ''|'' (sorted_reverse known)) = [''B10'', ''B1''] \<and>
           re_findall [''B10'', ''B1''] ''B10/B1'' = [''B10'', ''B1''] \<and>
           re_findall [''B1'', ''B10''] ''B10/B1'' = [''B1'', ''B1'']"
proof -
  from assms(3) have c: "re_compile (str_join ''|'' (sorted_reverse known)) = [''B10'', ''B1'']"
    using compile_B10_B1 by (auto simp: sorted_reverse_B1_B10)
  then have p: "p_parse_expression ls r ''B10/B1'' = Inr (ls [''B10'', ''B1''])"
    using assms(2) by (simp add: p_parse_expression_def findall_B10_B1)
  from assms(1) have "set (ls [''B10'', ''B1'']) = set [''B10'', ''B1'']"
    and "distinct (ls [''B10'', ''B1''])"
    unfolding py_list_set_def by blast+
  then have "set (ls [''B10'', ''B1'']) = {''B1'', ''B10''}" and "distinct (ls [''B10'', ''B1''])"
    by auto
  with p c findall_B10_B1 findall_B1_B10 show ?thesis by blast
qed

theorem parse_overlapping_names_witness:
  "py_list_set remdups \<and>
   p_parse_expression remdups (ex_open\<lparr>assets := Some [''B1'', ''B10'']\<rparr>) ''B10/B1'' =
     Inr [''B10'', ''B1'']"
proof -
  have a: "assets (ex_open\<lparr>assets := Some [''B1'', ''B10'']\<rparr>) = Some [''B1'', ''B10'']" by simp
  have k: "[''B1'', ''B10''] = [''B1'', ''B10''] \<or> [''B1'', ''B10''] = [''B10'', ''B1'']" by simp
  from parse_overlapping_names [OF remdups_list_set a k]
  have c: "re_compile (str_join ''|'' (sorted_reverse [''B1'', ''B10''])) = [''B10'', ''B1'']"
    and f: "re_findall [''B10'', ''B1''] ''B10/B1'' = [''B10'', ''B1'']"
    by blast+
  then have "p_parse_expression remdups (ex_open\<lparr>assets := Some [''B1'', ''B10'']\<rparr>) ''B10/B1'' =
     Inr [''B10'', ''B1'']"
    by (simp add: p_parse_expression_def)
  with remdups_list_set show ?thesis by simp
qed

section \<open>Operations without assets\<close>

lemma requested_assets_none:
  assumes "(a = NoAssets \<and> given_expression expression = None) \<or>
           (\<exists>e. given_expression expression = Some e \<and>
                 p_parse_expression (list_set env) r e = Inr [])"
  shows "requested_assets env r a expression = Inl (PyException no_assets_message)"
  using assms by (auto simp: requested_assets_def as_sequence_def)

text \<open>
  Claim C8: \<open>tile\<close>, \<open>part\<close>, \<open>preview\<close> and \<open>point\<close>, called with neither assets nor an
  expression, or with an expression in which the parser finds no known name, raise the
  exception "assets must be passed either via expression or assets options." with no
  name resolved and no location submitted to a raster reader.
\<close>

theorem no_assets_usage_error:
  assumes "(a = NoAssets \<and> given_expression expression = None) \<or>
           (\<exists>e known. given_expression expression = Some e \<and> assets r = Some known \<and>
                 plain_names known \<and> p_parse_expression (list_set env) r e = Inr [])"
  shows "tile env r args a expression = ([], Inl (PyException no_assets_message)) \<and>
         part env r args a expression = ([], Inl (PyException no_assets_message)) \<and>
         preview env r args a expression = ([], Inl (PyException no_assets_message)) \<and>
         point env r args a expression = ([], Inl (PyException no_assets_message))"
proof -
  from assms have "(a = NoAssets \<and> given_expression expression = None) \<or>
           (\<exists>e. given_expression expression = Some e \<and>
                 p_parse_expression (list_set env) r e = Inr [])"
    by blast
  from requested_assets_none [OF this] show ?thesis
    by (simp add: tile_def part_def preview_def read_operation_def point_def)
qed

lemma ex_parse_constant: "p_parse_expression (list_set ex_env) ex_open ''1+1'' = Inr []"
  by (simp add: p_parse_expression_def ex_open_def ex_env_def) code_simp

theorem no_assets_usage_error_witness:
  "given_expression None = None \<and> given_expression (Some []) = None \<and>
   tile ex_env ex_open () NoAssets None =
     ([], Inl (PyException ''assets must be passed either via expression or assets options.'')) \<and>
   point ex_env ex_open () NoAssets (Some []) =
     ([], Inl (PyException ''assets must be passed either via expression or assets options.'')) \<and>
   given_expression (Some ''1+1'') = Some ''1+1'' \<and> plain_names [''B01'', ''B02''] \<and>
   p_parse_expression (list_set ex_env) ex_open ''1+1'' = Inr [] \<and>
   preview ex_env ex_open () (AssetName ''B01'') (Some ''1+1'') =
     ([], Inl (PyException ''assets must be passed either via expression or assets options.''))"
proof -
  have g: "given_expression None = None" "given_expression (Some []) = None"
    "given_expression (Some ''1+1'') = Some ''1+1''"
    by (simp_all add: given_expression_def)
  have pl: "plain_names [''B01'', ''B02'']"
    by (simp add: plain_names_def re_special_def)
  have a: "assets ex_open = Some [''B01'', ''B02'']"
    by (simp add: ex_open_def)
  have h1: "(NoAssets = NoAssets \<and> given_expression None = None) \<or>
           (\<exists>e known. given_expression None = Some e \<and> assets ex_open = Some known \<and>
                 plain_names known \<and> p_parse_expression (list_set ex_env) ex_open e = Inr [])"
    using g by simp
  have h2: "(NoAssets = NoAssets \<and> given_expression (Some []) = None) \<or>
           (\<exists>e known. given_expression (Some []) = Some e \<and> assets ex_open = Some known \<and>
                 plain_names known \<and> p_parse_expression (list_set ex_env) ex_open e = Inr [])"
    using g by simp
  have h3: "(AssetName ''B01'' = NoAssets \<and> given_expression (Some ''1+1'') = None) \<or>
           (\<exists>e known. given_expression (Some ''1+1'') = Some e \<and> assets ex_open = Some known \<and>
                 plain_names known \<and> p_parse_expression (list_set ex_env) ex_open e = Inr [])"
    using g pl a ex_parse_constant by simp
  from no_assets_usage_error [OF h1, of "()"] no_assets_usage_error [OF h2, of "()"]
    no_assets_usage_error [OF h3, of "()"] g pl ex_parse_constant
  show ?thesis by (simp add: no_assets_message_def)
qed

section \<open>Expression application\<close>

lemma collect_length: "collect f xs = Inr ys \<Longrightarrow> length ys = length xs"
  by (induction xs arbitrary: ys) (auto split: sum.splits)

lemma collect_post:
  "collect (\<lambda>x. case f x of Inl e \<Rightarrow> Inl e | Inr y \<Rightarrow> Inr (g y)) xs =
     (case collect f xs of Inl e \<Rightarrow> Inl e | Inr ys \<Rightarrow> Inr (map g ys))"
  by (induction xs) (auto split: sum.splits)

lemma np_array_value:
  assumes "np_array outs = Inr out"
  shows "hd (shape out) = length outs" and "elems out = concat (map elems outs)"
  using assms by (auto simp: np_array_def split: list.splits if_splits)

lemma length_split_on: "length (split_on c s) = Suc (count_list s c)"
  by (induction s) (auto split: list.splits)

lemma split_on_nonempty: "split_on c s \<noteq> []"
  using length_split_on [of c s] by auto

lemma apply_expression_value:
  assumes "p_apply_expression ev blocks bands data = Inr out"
  shows "\<exists>rows outs. iterate data = Inr rows \<and>
           collect (\<lambda>bloc. ev (strip bloc) (py_dict (zip bands rows))) blocks = Inr outs \<and>
           hd (shape out) = length blocks \<and>
           elems out = map nan_to_num (concat (map elems outs))"
proof -
  from assms obtain rows where r: "iterate data = Inr rows"
    by (auto simp: p_apply_expression_def split: sum.splits)
  let ?d = "py_dict (zip bands rows)"
  from assms r obtain outs' where
    c: "collect (\<lambda>bloc. case ev (strip bloc) ?d of Inl e \<Rightarrow> Inl e
                          | Inr a \<Rightarrow> Inr (nan_to_num_array a)) blocks = Inr outs'"
    and n: "np_array outs' = Inr out"
    by (auto simp: p_apply_expression_def Let_def split: sum.splits)
  from c obtain outs where
    o: "collect (\<lambda>bloc. ev (strip bloc) ?d) blocks = Inr outs"
    and o': "outs' = map nan_to_num_array outs"
    by (auto simp: collect_post split: sum.splits)
  have "length outs' = length blocks"
    using collect_length [OF c] .
  with np_array_value [OF n] have h: "hd (shape out) = length blocks"
    and e: "elems out = concat (map elems outs')" by simp_all
  have "concat (map elems outs') = map nan_to_num (concat (map elems outs))"
    by (simp add: o' nan_to_num_array_def map_concat comp_def)
  with r o h e show ?thesis by auto
qed

lemma float64_max_pos: "0 < float64_max"
  by (simp add: float64_max_def)

lemma ex_apply:
  "p_apply_expression ex_evaluate [''B01/B02''] [''B01'', ''B02''] (Array ex_stack) =
     Inr \<lparr>shape = [1, 1, 2], elems = [Finite float64_max, Finite 0]\<rparr>"
  by (simp add: p_apply_expression_def ex_stack_def unstack_def py_dict_def ex_evaluate_def
      strip_def py_isspace_def np_array_def nan_to_num_array_def upt_rec)

lemma ex_rows:
  "ex_evaluate ''B01/B02''
     (py_dict (zip [''B01'', ''B02'']
        [\<lparr>shape = [1, 2], elems = [Finite 1, Finite 0]\<rparr>,
         \<lparr>shape = [1, 2], elems = [Finite 0, Finite 0]\<rparr>])) =
   Inr \<lparr>shape = [1, 2], elems = [PosInf, NaN]\<rparr>"
  by (simp add: py_dict_def ex_evaluate_def)

text \<open>
  Claim C7, as amended: in the array that expression application returns, every element
  is the evaluated element passed through \<open>nan_to_num\<close>: NaN is replaced by zero,
  positive infinity by the largest finite double and negative infinity by its negation
  (not by zero), and a finite value is returned unchanged.
\<close>

theorem nan_to_num_replacement:
  assumes "p_apply_expression ev blocks bands data = Inr out"
  shows "\<exists>rows outs. iterate data = Inr rows \<and>
           collect (\<lambda>bloc. ev (strip bloc) (py_dict (zip bands rows))) blocks = Inr outs \<and>
           elems out = map nan_to_num (concat (map elems outs)) \<and>
           nan_to_num NaN = Finite 0 \<and>
           nan_to_num PosInf = Finite float64_max \<and>
           nan_to_num NegInf = Finite (- float64_max) \<and>
           0 < float64_max \<and>
           (\<forall>x. nan_to_num (Finite x) = Finite x)"
  using apply_expression_value [OF assms] float64_max_pos by auto

theorem nan_to_num_replacement_witness:
  "p_apply_expression ex_evaluate [''B01/B02''] [''B01'', ''B02''] (Array ex_stack) =
     Inr \<lparr>shape = [1, 1, 2], elems = [Finite float64_max, Finite 0]\<rparr> \<and>
   nan_to_num NaN = Finite 0 \<and> nan_to_num PosInf = Finite float64_max \<and>
   nan_to_num (Finite 7) = Finite 7 \<and> 0 < float64_max"
proof -
  from nan_to_num_replacement [OF ex_apply]
  have "nan_to_num NaN = Finite 0 \<and> nan_to_num PosInf = Finite float64_max \<and>
        nan_to_num (Finite 7) = Finite 7 \<and> 0 < float64_max"
    by blast
  with ex_apply show ?thesis by simp
qed

text \<open>
  Claim C7 as stated fails where a division by zero gives an infinity: \<open>1 / 0\<close> evaluates
  to positive infinity, and the returned array holds the largest finite double there.
\<close>

theorem infinity_not_zero_counterexample:
  "ex_evaluate ''B01/B02''
     (py_dict (zip [''B01'', ''B02'']
        [\<lparr>shape = [1, 2], elems = [Finite 1, Finite 0]\<rparr>,
         \<lparr>shape = [1, 2], elems = [Finite 0, Finite 0]\<rparr>])) =
     Inr \<lparr>shape = [1, 2], elems = [PosInf, NaN]\<rparr> \<and>
   p_apply_expression ex_evaluate [''B01/B02''] [''B01'', ''B02''] (Array ex_stack) =
     Inr \<lparr>shape = [1, 1, 2], elems = [Finite float64_max, Finite 0]\<rparr> \<and>
   Finite float64_max \<noteq> Finite 0"
  using ex_rows ex_apply float64_max_pos by simp

lemma read_operation_expression:
  assumes "given_expression expression = Some e"
    and "read_operation run env r a expression = (submitted, Inr (data, m))"
  shows "\<exists>names urls stack.
      p_parse_expression (list_set env) r e = Inr names \<and>
      p_get_href r names = Inr urls \<and>
      run urls = (submitted, Inr (stack, m)) \<and>
      p_apply_expression (evaluate env) (split_on CHR '','' e) names (Array stack) = Inr data"
proof -
  from assms obtain names where rq: "requested_assets env r a expression = Inr names"
    by (auto simp: read_operation_def split: sum.splits)
  with assms(1) have p: "p_parse_expression (list_set env) r e = Inr names"
    by (auto simp: requested_assets_def split: sum.splits option.splits if_splits)
  from assms(2) rq obtain urls where u: "p_get_href r names = Inr urls"
    by (auto simp: read_operation_def split: sum.splits)
  obtain sub res where ru: "run urls = (sub, res)"
    by (cases "run urls") auto
  from assms(2) rq u ru obtain stack m' where res: "res = Inr (stack, m')"
    by (cases res) (auto simp: read_operation_def)
  from assms rq u ru res have "sub = submitted" and "m' = m" and
    x: "p_apply_expression (evaluate env) (split_on CHR '','' e) names (Array stack) = Inr data"
    by (auto simp: read_operation_def split: sum.splits)
  with ru res have s: "run urls = (submitted, Inr (stack, m))"
    by simp
  from p u s x show ?thesis by blast
qed

lemma np_array_same_shape:
  assumes "outs \<noteq> []" and "\<forall>x\<in>set outs. shape x = shape (hd outs)"
  shows "np_array outs = Inr \<lparr>shape = length outs # shape (hd outs),
                              elems = concat (map elems outs)\<rparr>"
  using assms by (cases outs) (auto simp: np_array_def list_ex_iff)

lemma np_array_Inr_shape:
  assumes "np_array outs = Inr out" and "outs \<noteq> []"
  shows "\<forall>x\<in>set outs. shape x = shape (hd outs)"
    and "shape out = length outs # shape (hd outs)"
  using assms by (cases outs; auto simp: np_array_def list_ex_iff split: if_splits)+

lemma apply_expression_succeeds:
  assumes "iterate data = Inr rows"
    and "collect (\<lambda>bloc. ev (strip bloc) (py_dict (zip bands rows))) blocks = Inr outs"
    and "blocks \<noteq> []"
    and "\<forall>x\<in>set outs. shape x = shape (hd outs)"
  shows "p_apply_expression ev blocks bands data =
           Inr \<lparr>shape = length blocks # shape (hd outs),
                elems = map nan_to_num (concat (map elems outs))\<rparr>"
proof -
  let ?d = "py_dict (zip bands rows)"
  let ?outs' = "map nan_to_num_array outs"
  have c: "collect (\<lambda>bloc. case ev (strip bloc) ?d of Inl e \<Rightarrow> Inl e
                          | Inr a \<Rightarrow> Inr (nan_to_num_array a)) blocks = Inr ?outs'"
    by (simp add: collect_post assms(2))
  have len: "length outs = length blocks"
    using collect_length [OF assms(2)] .
  with assms(3) have ne: "outs \<noteq> []" by auto
  then have hd': "shape (hd ?outs') = shape (hd outs)"
    by (cases outs) (simp_all add: nan_to_num_array_def)
  have "\<forall>x\<in>set ?outs'. shape x = shape (hd ?outs')"
    using assms(4) hd' by (auto simp: nan_to_num_array_def)
  from np_array_same_shape [OF _ this] ne
  have "np_array ?outs' = Inr \<lparr>shape = length ?outs' # shape (hd ?outs'),
                              elems = concat (map elems ?outs')\<rparr>"
    by simp
  moreover have "concat (map elems ?outs') = map nan_to_num (concat (map elems outs))"
    by (simp add: nan_to_num_array_def map_concat comp_def)
  ultimately have "np_array ?outs' = Inr \<lparr>shape = length blocks # shape (hd outs),
                              elems = map nan_to_num (concat (map elems outs))\<rparr>"
    using hd' len by simp
  with assms(1) c show ?thesis
    by (simp add: p_apply_expression_def Let_def)
qed

lemma apply_expression_shape:
  assumes "p_apply_expression ev blocks bands data = Inr out" and "blocks \<noteq> []"
    and "iterate data = Inr rows"
    and "collect (\<lambda>bloc. ev (strip bloc) (py_dict (zip bands rows))) blocks = Inr outs"
  shows "\<forall>x\<in>set outs. shape x = shape (hd outs)"
    and "shape out = length blocks # shape (hd outs)"
proof -
  let ?d = "py_dict (zip bands rows)"
  let ?outs' = "map nan_to_num_array outs"
  have c: "collect (\<lambda>bloc. case ev (strip bloc) ?d of Inl e \<Rightarrow> Inl e
                          | Inr a \<Rightarrow> Inr (nan_to_num_array a)) blocks = Inr ?outs'"
    by (simp add: collect_post assms(4))
  with assms(1,3) have n: "np_array ?outs' = Inr out"
    by (simp add: p_apply_expression_def Let_def)
  have len: "length outs = length blocks"
    using collect_length [OF assms(4)] .
  with assms(2) have ne: "outs \<noteq> []" by auto
  then have ne': "?outs' \<noteq> []" by simp
  from ne have hd': "shape (hd ?outs') = shape (hd outs)"
    by (cases outs) (simp_all add: nan_to_num_array_def)
  from np_array_Inr_shape(1) [OF n ne'] hd'
  show "\<forall>x\<in>set outs. shape x = shape (hd outs)"
    by (auto simp: nan_to_num_array_def)
  from np_array_Inr_shape(2) [OF n ne'] hd' len
  show "shape out = length blocks # shape (hd outs)"
    by simp
qed

lemma read_operation_succeeds:
  assumes "given_expression expression = Some e"
    and "p_parse_expression (list_set env) r e = Inr names" and "names \<noteq> []"
    and "p_get_href r names = Inr urls"
    and "run urls = (submitted, Inr (stack, m))"
    and "p_apply_expression (evaluate env) (split_on CHR '','' e) names (Array stack) = Inr data"
  shows "read_operation run env r a expression = (submitted, Inr (data, m))"
proof -
  have "requested_assets env r a expression = Inr names"
    using assms(1,2,3) by (simp add: requested_assets_def)
  with assms show ?thesis
    by (simp add: read_operation_def)
qed

lemma read_operation_names:
  assumes "given_expression expression = Some e"
    and "read_operation run env r a expression = (submitted, Inr (data, m))"
    and "p_parse_expression (list_set env) r e = Inr names"
  shows "names \<noteq> []"
proof
  assume "names = []"
  with assms(1,3) have "requested_assets env r a expression = Inl (PyException no_assets_message)"
    by (simp add: requested_assets_def)
  with assms(2) show False
    by (simp add: read_operation_def)
qed

text \<open>
  Claim C6: when \<open>tile\<close>, \<open>part\<close> or \<open>preview\<close> is called with a non-empty expression, the
  result has one band per comma-separated sub-expression (one more than the number of
  commas, whatever the number of assets). In one direction, a returned array comes from a
  successful parse, resolution and stacked read, every sub-expression evaluated against the
  binding of the parsed asset names to the bands of the stacked array in order, all
  evaluations of one shape; its shape is the number of sub-expressions followed by that
  shape, its elements are the evaluations in order with the non-finite values replaced, and
  the returned mask is the mask of the stack. In the other direction, whenever the parse
  names at least one asset, the resolution and the stacked read succeed and every
  sub-expression evaluates to an array of one shape, the operation returns exactly that
  array and the stack's mask.
\<close>

theorem expression_bands:
  assumes "given_expression expression = Some e"
    and "assets r = Some known" and "plain_names known"
    and "(op = tile env r args \<and> run = (\<lambda>urls. p_tile env r urls args)) \<or>
         (op = part env r args \<and> run = (\<lambda>urls. p_part env r urls args)) \<or>
         (op = preview env r args \<and> run = (\<lambda>urls. p_preview env r urls args))"
  shows "(op a expression = (submitted, Inr (data, m)) \<longrightarrow>
      (\<exists>names urls stack rows outs.
         p_parse_expression (list_set env) r e = Inr names \<and> names \<noteq> [] \<and>
         p_get_href r names = Inr urls \<and>
         run urls = (submitted, Inr (stack, m)) \<and>
         unstack stack = Inr rows \<and>
         collect (\<lambda>bloc. evaluate env (strip bloc) (py_dict (zip names rows)))
           (split_on CHR '','' e) = Inr outs \<and>
         (\<forall>x\<in>set outs. shape x = shape (hd outs)) \<and>
         hd (shape data) = length (split_on CHR '','' e) \<and>
         shape data = length (split_on CHR '','' e) # shape (hd outs) \<and>
         length (split_on CHR '','' e) = Suc (count_list e CHR '','') \<and>
         elems data = map nan_to_num (concat (map elems outs)))) \<and>
    (\<forall>names urls stack rows outs.
       p_parse_expression (list_set env) r e = Inr names \<and> names \<noteq> [] \<and>
       p_get_href r names = Inr urls \<and>
       run urls = (submitted, Inr (stack, m)) \<and>
       unstack stack = Inr rows \<and>
       collect (\<lambda>bloc. evaluate env (strip bloc) (py_dict (zip names rows)))
         (split_on CHR '','' e) = Inr outs \<and>
       (\<forall>x\<in>set outs. shape x = shape (hd outs)) \<longrightarrow>
       op a expression =
         (submitted,
          Inr (\<lparr>shape = Suc (count_list e CHR '','') # shape (hd outs),
                elems = map nan_to_num (concat (map elems outs))\<rparr>, m)))"
proof (intro conjI impI allI)
  assume res: "op a expression = (submitted, Inr (data, m))"
  with assms(4) have "read_operation run env r a expression = (submitted, Inr (data, m))"
    by (auto simp: tile_def part_def preview_def)
  note ro = this
  from read_operation_expression [OF assms(1) ro] obtain names urls stack where
    p: "p_parse_expression (list_set env) r e = Inr names"
    and u: "p_get_href r names = Inr urls"
    and s: "run urls = (submitted, Inr (stack, m))"
    and x: "p_apply_expression (evaluate env) (split_on CHR '','' e) names (Array stack) = Inr data"
    by blast
  from apply_expression_value [OF x] obtain rows outs where
    it: "iterate (Array stack) = Inr rows"
    and c: "collect (\<lambda>bloc. evaluate env (strip bloc) (py_dict (zip names rows)))
        (split_on CHR '','' e) = Inr outs"
    and h: "hd (shape data) = length (split_on CHR '','' e)"
    and el: "elems data = map nan_to_num (concat (map elems outs))"
    by blast
  note sh = apply_expression_shape [OF x split_on_nonempty [of "CHR '',''" e] it c]
  have n: "names \<noteq> []"
    by (rule read_operation_names [OF assms(1) ro p])
  from it have "unstack stack = Inr rows" by simp
  with p n u s c sh h el length_split_on [of "CHR '',''" e]
  show "\<exists>names urls stack rows outs.
         p_parse_expression (list_set env) r e = Inr names \<and> names \<noteq> [] \<and>
         p_get_href r names = Inr urls \<and>
         run urls = (submitted, Inr (stack, m)) \<and>
         unstack stack = Inr rows \<and>
         collect (\<lambda>bloc. evaluate env (strip bloc) (py_dict (zip names rows)))
           (split_on CHR '','' e) = Inr outs \<and>
         (\<forall>x\<in>set outs. shape x = shape (hd outs)) \<and>
         hd (shape data) = length (split_on CHR '','' e) \<and>
         shape data = length (split_on CHR '','' e) # shape (hd outs) \<and>
         length (split_on CHR '','' e) = Suc (count_list e CHR '','') \<and>
         elems data = map nan_to_num (concat (map elems outs))"
    by blast
next
  fix names urls stack rows outs
  assume a: "p_parse_expression (list_set env) r e = Inr names \<and> names \<noteq> [] \<and>
       p_get_href r names = Inr urls \<and>
       run urls = (submitted, Inr (stack, m)) \<and>
       unstack stack = Inr rows \<and>
       collect (\<lambda>bloc. evaluate env (strip bloc) (py_dict (zip names rows)))
         (split_on CHR '','' e) = Inr outs \<and>
       (\<forall>x\<in>set outs. shape x = shape (hd outs))"
  then have it: "iterate (Array stack) = Inr rows" by simp
  from a have c: "collect (\<lambda>bloc. evaluate env (strip bloc) (py_dict (zip names rows)))
         (split_on CHR '','' e) = Inr outs"
    and sh: "\<forall>x\<in>set outs. shape x = shape (hd outs)"
    by blast+
  from apply_expression_succeeds [where ev = "evaluate env" and bands = names, OF it c split_on_nonempty [of "CHR '',''" e] sh]
  have x: "p_apply_expression (evaluate env) (split_on CHR '','' e) names (Array stack) =
      Inr \<lparr>shape = Suc (count_list e CHR '','') # shape (hd outs),
           elems = map nan_to_num (concat (map elems outs))\<rparr>"
    by (simp add: length_split_on)
  from a have "p_parse_expression (list_set env) r e = Inr names" "names \<noteq> []"
    "p_get_href r names = Inr urls" "run urls = (submitted, Inr (stack, m))"
    by blast+
  from read_operation_succeeds [where run = run and a = a, OF assms(1) this x]
  have "read_operation run env r a expression =
      (submitted,
       Inr (\<lparr>shape = Suc (count_list e CHR '','') # shape (hd outs),
             elems = map nan_to_num (concat (map elems outs))\<rparr>, m))" .
  with assms(4) show "op a expression =
         (submitted,
          Inr (\<lparr>shape = Suc (count_list e CHR '','') # shape (hd outs),
                elems = map nan_to_num (concat (map elems outs))\<rparr>, m))"
    by (auto simp: tile_def part_def preview_def)
qed

lemma ex_parse_ratio: "p_parse_expression (list_set ex_env) ex_open ''B01/B02'' = Inr [''B01'', ''B02'']"
  by (simp add: p_parse_expression_def ex_open_def ex_env_def) code_simp

lemma ex_href: "p_get_href ex_open [''B01'', ''B02''] = Inr [''https://x/B01.tif'', ''https://x/B02.tif'']"
  by (simp add: p_get_href_def ex_open_def ex_item_def)

lemma ex_stack_results: "stack_results ex_results = Inr (ex_stack, \<lparr>shape = [1, 2], elems = [255, 0]\<rparr>)"
  by (simp add: stack_results_def ex_results_def ex_stack_def concatenate_def np_all_axis0_def
        times_255_def astype_uint8_def upt_rec)

lemma ex_p_tile:
  "p_tile ex_env ex_open [''https://x/B01.tif'', ''https://x/B02.tif''] () =
     ([''https://x/B01.tif'', ''https://x/B02.tif''],
      Inr (ex_stack, \<lparr>shape = [1, 2], elems = [255, 0]\<rparr>))"
proof -
  have "collect (\<lambda>asset. cog_tile ex_env asset (tms ex_open) ())
             [''https://x/B01.tif'', ''https://x/B02.tif''] = Inr ex_results"
    by (simp add: ex_env_def ex_read_def ex_results_def)
  then show ?thesis
    by (simp add: p_tile_def assemble_def executor_map_def ex_stack_results)
qed

lemma ex_tile_expression:
  "tile ex_env ex_open () NoAssets (Some ''B01/B02'') =
     ([''https://x/B01.tif'', ''https://x/B02.tif''],
      Inr (\<lparr>shape = [1, 1, 2], elems = [Finite float64_max, Finite 0]\<rparr>,
           \<lparr>shape = [1, 2], elems = [255, 0]\<rparr>))"
proof -
  have g: "given_expression (Some ''B01/B02'') = Some ''B01/B02''"
    by (simp add: given_expression_def)
  have rq: "requested_assets ex_env ex_open NoAssets (Some ''B01/B02'') = Inr [''B01'', ''B02'']"
    by (simp add: requested_assets_def g ex_parse_ratio)
  have sp: "split_on CHR '','' ''B01/B02'' = [''B01/B02'']"
    by simp
  have ev: "evaluate ex_env = ex_evaluate"
    by (simp add: ex_env_def)
  show ?thesis
    by (simp add: tile_def read_operation_def rq ex_href ex_p_tile g sp ev ex_apply)
qed

lemma ex_parse_two:
  "p_parse_expression (list_set ex_env) ex_open ''B01/B02, B01/B02'' = Inr [''B01'', ''B02'']"
  by (simp add: p_parse_expression_def ex_open_def ex_env_def) code_simp

lemma ex_split_two: "split_on CHR '','' ''B01/B02, B01/B02'' = [''B01/B02'', '' B01/B02'']"
  by simp

lemma ex_unstack:
  "unstack ex_stack = Inr [\<lparr>shape = [1, 2], elems = [Finite 1, Finite 0]\<rparr>,
                           \<lparr>shape = [1, 2], elems = [Finite 0, Finite 0]\<rparr>]"
  by (simp add: unstack_def ex_stack_def upt_rec)

lemma ex_collect_two:
  "collect (\<lambda>bloc. evaluate ex_env (strip bloc)
              (py_dict (zip [''B01'', ''B02'']
                 [\<lparr>shape = [1, 2], elems = [Finite 1, Finite 0]\<rparr>,
                  \<lparr>shape = [1, 2], elems = [Finite 0, Finite 0]\<rparr>])))
     (split_on CHR '','' ''B01/B02, B01/B02'') =
   Inr [\<lparr>shape = [1, 2], elems = [PosInf, NaN]\<rparr>, \<lparr>shape = [1, 2], elems = [PosInf, NaN]\<rparr>]"
proof -
  have s: "strip ''B01/B02'' = ''B01/B02''" "strip '' B01/B02'' = ''B01/B02''"
    by (simp_all add: strip_def py_isspace_def)
  have ev: "evaluate ex_env = ex_evaluate"
    by (simp add: ex_env_def)
  show ?thesis
    by (simp add: ex_split_two s ev py_dict_def ex_evaluate_def)
qed

theorem expression_bands_witness:
  "given_expression (Some ''B01/B02, B01/B02'') = Some ''B01/B02, B01/B02'' \<and>
   assets ex_open = Some [''B01'', ''B02''] \<and> plain_names [''B01'', ''B02''] \<and>
   split_on CHR '','' ''B01/B02, B01/B02'' = [''B01/B02'', '' B01/B02''] \<and>
   tile ex_env ex_open () NoAssets (Some ''B01/B02, B01/B02'') =
     ([''https://x/B01.tif'', ''https://x/B02.tif''],
      Inr (\<lparr>shape = [2, 1, 2],
            elems = [Finite float64_max, Finite 0, Finite float64_max, Finite 0]\<rparr>,
           \<lparr>shape = [1, 2], elems = [255, 0]\<rparr>)) \<and>
   tile ex_env ex_open () NoAssets (Some ''B01/B02'') =
     ([''https://x/B01.tif'', ''https://x/B02.tif''],
      Inr (\<lparr>shape = [1, 1, 2], elems = [Finite float64_max, Finite 0]\<rparr>,
           \<lparr>shape = [1, 2], elems = [255, 0]\<rparr>)) \<and>
   hd (shape \<lparr>shape = [2, 1, 2],
               elems = [Finite float64_max, Finite 0, Finite float64_max, Finite 0]\<rparr>) =
     length (split_on CHR '','' ''B01/B02, B01/B02'') \<and>
   hd (shape \<lparr>shape = [1, 1, 2], elems = [Finite float64_max, Finite 0]\<rparr>) =
     length (split_on CHR '','' ''B01/B02'')"
proof -
  have g1: "given_expression (Some ''B01/B02'') = Some ''B01/B02''"
    and g2: "given_expression (Some ''B01/B02, B01/B02'') = Some ''B01/B02, B01/B02''"
    by (simp_all add: given_expression_def)
  have pl: "plain_names [''B01'', ''B02'']"
    by (simp add: plain_names_def re_special_def)
  have a: "assets ex_open = Some [''B01'', ''B02'']"
    by (simp add: ex_open_def)
  have o: "(tile ex_env ex_open () = tile ex_env ex_open () \<and>
            (\<lambda>urls. p_tile ex_env ex_open urls ()) = (\<lambda>urls. p_tile ex_env ex_open urls ())) \<or>
         (tile ex_env ex_open () = part ex_env ex_open () \<and>
            (\<lambda>urls. p_tile ex_env ex_open urls ()) = (\<lambda>urls. p_part ex_env ex_open urls ())) \<or>
         (tile ex_env ex_open () = preview ex_env ex_open () \<and>
            (\<lambda>urls. p_tile ex_env ex_open urls ()) = (\<lambda>urls. p_preview ex_env ex_open urls ()))"
    by simp
  note two = expression_bands [where a = NoAssets
      and submitted = "[''https://x/B01.tif'', ''https://x/B02.tif'']"
      and m = "\<lparr>shape = [1, 2], elems = [255, 0]\<rparr>", OF g2 a pl o, THEN conjunct2, rule_format,
      of "[''B01'', ''B02'']" "[''https://x/B01.tif'', ''https://x/B02.tif'']" ex_stack
         "[\<lparr>shape = [1, 2], elems = [Finite 1, Finite 0]\<rparr>,
           \<lparr>shape = [1, 2], elems = [Finite 0, Finite 0]\<rparr>]"
         "[\<lparr>shape = [1, 2], elems = [PosInf, NaN]\<rparr>, \<lparr>shape = [1, 2], elems = [PosInf, NaN]\<rparr>]"]
  have "tile ex_env ex_open () NoAssets (Some ''B01/B02, B01/B02'') =
     ([''https://x/B01.tif'', ''https://x/B02.tif''],
      Inr (\<lparr>shape = Suc (count_list ''B01/B02, B01/B02'' CHR '','') #
                 shape (hd [\<lparr>shape = [1, 2], elems = [PosInf, NaN]\<rparr>,
                            \<lparr>shape = [1, 2], elems = [PosInf, NaN]\<rparr>]),
            elems = map nan_to_num
              (concat (map elems [\<lparr>shape = [1, 2], elems = [PosInf, NaN]\<rparr>,
                                  \<lparr>shape = [1, 2], elems = [PosInf, NaN]\<rparr>]))\<rparr>,
           \<lparr>shape = [1, 2], elems = [255, 0]\<rparr>))"
    by (rule two) (use ex_parse_two ex_href ex_p_tile ex_unstack ex_collect_two in simp)
  then have t2: "tile ex_env ex_open () NoAssets (Some ''B01/B02, B01/B02'') =
     ([''https://x/B01.tif'', ''https://x/B02.tif''],
      Inr (\<lparr>shape = [2, 1, 2],
            elems = [Finite float64_max, Finite 0, Finite float64_max, Finite 0]\<rparr>,
           \<lparr>shape = [1, 2], elems = [255, 0]\<rparr>))"
    by simp
  from expression_bands [OF g2 a pl o, THEN conjunct1, rule_format, OF t2]
  have h2: "hd (shape \<lparr>shape = [2, 1, 2],
               elems = [Finite float64_max, Finite 0, Finite float64_max, Finite 0]\<rparr>) =
     length (split_on CHR '','' ''B01/B02, B01/B02'')"
    by blast
  from expression_bands [OF g1 a pl o, THEN conjunct1, rule_format, OF ex_tile_expression]
  have h1: "hd (shape \<lparr>shape = [1, 1, 2], elems = [Finite float64_max, Finite 0]\<rparr>) =
     length (split_on CHR '','' ''B01/B02'')"
    by blast
  from g2 a pl ex_split_two t2 ex_tile_expression h2 h1 show ?thesis
    by (intro conjI)
qed

section \<open>Dictionary operations and the lifecycle\<close>

lemma check_names_member:
  "check_names el names = None \<Longrightarrow> n \<in> set names \<Longrightarrow> check_names el [n] = None"
  by (induction names) (auto split: option.splits if_splits)

lemma lookup_hrefs_nth:
  "lookup_hrefs it names = Inr urls \<Longrightarrow>
   length urls = length names \<and>
   (\<forall>i<length names. lookup_hrefs it [names ! i] = Inr [urls ! i])"
proof (induction names arbitrary: urls)
  case Nil
  then show ?case by simp
next
  case (Cons n names)
  from Cons.prems obtain i info rest where
    it: "it = Some i" and inf: "map_of (item_assets i) n = Some info"
    and rest: "lookup_hrefs it names = Inr rest" and urls: "urls = asset_href info # rest"
    by (auto split: option.splits sum.splits)
  from Cons.IH [OF rest] have len: "length rest = length names"
    and nth: "\<forall>i<length names. lookup_hrefs it [names ! i] = Inr [rest ! i]"
    by simp_all
  have "lookup_hrefs it [(n # names) ! k] = Inr [urls ! k]" if "k < length (n # names)" for k
  proof (cases k)
    case 0
    then show ?thesis by (simp add: it inf urls)
  next
    case (Suc j)
    with that nth show ?thesis by (simp add: urls)
  qed
  with len urls show ?case by simp
qed

lemma p_get_href_nth:
  assumes "p_get_href r names = Inr urls"
  shows "length urls = length names"
    and "i < length names \<Longrightarrow> p_get_href r [names ! i] = Inr [urls ! i]"
proof -
  from assms have c: "check_names (assets r) names = None"
    and l: "lookup_hrefs (item r) names = Inr urls"
    by (auto simp: p_get_href_def split: option.splits)
  from lookup_hrefs_nth [OF l] show "length urls = length names" by simp
  assume i: "i < length names"
  then have "check_names (assets r) [names ! i] = None"
    using check_names_member [OF c] by simp
  moreover from lookup_hrefs_nth [OF l] i
  have "lookup_hrefs (item r) [names ! i] = Inr [urls ! i]" by simp
  ultimately show "p_get_href r [names ! i] = Inr [urls ! i]"
    by (simp add: p_get_href_def)
qed

lemma collect_nth:
  "collect f xs = Inr ys \<Longrightarrow> i < length xs \<Longrightarrow> f (xs ! i) = Inr (ys ! i)"
proof (induction xs arbitrary: ys i)
  case Nil
  then show ?case by simp
next
  case (Cons x xs)
  then show ?case
    by (cases i) (auto split: sum.splits)
qed

lemma py_dict_map_of: "py_dict pairs = map_of (rev pairs)"
proof -
  have "fold (\<lambda>(k, v) m. m(k \<mapsto> v)) pairs m0 = m0 ++ map_of (rev pairs)" for m0 :: "'a \<rightharpoonup> 'b"
    by (induction pairs arbitrary: m0) (auto simp: map_add_def fun_eq_iff split: option.splits)
  then show ?thesis by (simp add: py_dict_def)
qed

lemma enumerate_pairs:
  "length results = length names \<Longrightarrow>
   map (\<lambda>(ix, asset). (asset, results ! ix)) (enumerate 0 names) = zip names results"
  by (rule nth_equalityI) (simp_all add: nth_enumerate_eq)

lemma dict_operation_own:
  assumes "as_sequence a = Some names" and "p_get_href r names = Inr urls"
    and "collect worker urls = Inr results"
  shows "\<exists>m. dict_operation (executor_map worker) r a = (urls, Inr m) \<and>
             own_results r worker names m"
proof -
  note lu = p_get_href_nth [OF assms(2)]
  from collect_length [OF assms(3)] lu(1) have lr: "length results = length names" by simp
  let ?m = "py_dict (zip names results)"
  have d: "dict_operation (executor_map worker) r a = (urls, Inr ?m)"
    using assms by (simp add: dict_operation_def executor_map_def enumerate_pairs [OF lr])
  have dom: "dom ?m = set names"
  proof -
    have "dom ?m = fst ` set (rev (zip names results))"
      by (simp only: py_dict_map_of dom_map_of_conv_image_fst)
    also have "\<dots> = set (map fst (zip names results))"
      by simp
    also have "\<dots> = set names"
      using lr by simp
    finally show ?thesis .
  qed
  have each: "case p_get_href r [n] of
                Inr [url] \<Rightarrow> (case worker url of Inr v \<Rightarrow> ?m n = Some v | Inl _ \<Rightarrow> False)
              | _ \<Rightarrow> False" if "n \<in> set names" for n
  proof -
    from that dom obtain v where v: "?m n = Some v" by blast
    then have "(n, v) \<in> set (zip names results)"
      by (auto simp: py_dict_map_of dest: map_of_SomeD)
    then obtain i where i: "i < length names" "names ! i = n" "results ! i = v"
      by (auto simp: in_set_zip)
    from lu(2) [OF i(1)] i(2) have h: "p_get_href r [n] = Inr [urls ! i]" by simp
    from collect_nth [OF assms(3), of i] i lu(1) have "worker (urls ! i) = Inr v" by simp
    with h v show ?thesis by simp
  qed
  then have "own_results r worker names ?m"
    using dom unfolding own_results_def list_all_iff by blast
  with d show ?thesis by blast
qed

lemma dict_operation_empty:
  "dict_operation (executor_map worker) r (AssetList []) = ([], Inr Map.empty)"
  by (simp add: dict_operation_def as_sequence_def p_get_href_def executor_map_def
      py_dict_def enumerate_eq_zip)

text \<open>
  Claim C9: \<open>stats\<close>, \<open>info\<close> and \<open>metadata\<close> do not check for an empty asset list: on an
  empty sequence they return the empty mapping and raise nothing, whatever the state of
  the reader; and when the names resolve and the reads succeed they return a mapping
  whose keys are the requested names, each taken to the result of reading that asset's
  own location, with nothing stacked or combined.
\<close>

theorem dict_operations_per_asset:
  "stats env r (AssetList []) args = ([], Inr Map.empty) \<and>
   info env r (AssetList []) = ([], Inr Map.empty) \<and>
   metadata env r (AssetList []) args = ([], Inr Map.empty) \<and>
   (as_sequence a = Some names \<and> p_get_href r names = Inr urls \<longrightarrow>
      (\<forall>results. collect (\<lambda>asset. cog_stats env asset args) urls = Inr results \<longrightarrow>
         (\<exists>m. stats env r a args = (urls, Inr m) \<and>
              own_results r (\<lambda>asset. cog_stats env asset args) names m)) \<and>
      (\<forall>results. collect (\<lambda>asset. cog_info env asset (tms r)) urls = Inr results \<longrightarrow>
         (\<exists>m. info env r a = (urls, Inr m) \<and>
              own_results r (\<lambda>asset. cog_info env asset (tms r)) names m)) \<and>
      (\<forall>results. collect (\<lambda>asset. cog_metadata env asset args) urls = Inr results \<longrightarrow>
         (\<exists>m. metadata env r a args = (urls, Inr m) \<and>
              own_results r (\<lambda>asset. cog_metadata env asset args) names m)))"
proof -
  have s: "p_stats env r = (\<lambda>urls args. executor_map (\<lambda>asset. cog_stats env asset args) urls)"
    and i: "p_info env r = executor_map (\<lambda>asset. cog_info env asset (tms r))"
    and m: "p_metadata env r = (\<lambda>urls args. executor_map (\<lambda>asset. cog_metadata env asset args) urls)"
    by (simp_all add: fun_eq_iff p_stats_def p_info_def p_metadata_def)
  have e: "stats env r (AssetList []) args = ([], Inr Map.empty)"
    "info env r (AssetList []) = ([], Inr Map.empty)"
    "metadata env r (AssetList []) args = ([], Inr Map.empty)"
    using dict_operation_empty [of "\<lambda>asset. cog_stats env asset args" r]
      dict_operation_empty [of "\<lambda>asset. cog_info env asset (tms r)" r]
      dict_operation_empty [of "\<lambda>asset. cog_metadata env asset args" r]
    by (simp_all add: stats_def info_def metadata_def s i m)
  have g: "\<exists>mp. stats env r a args = (urls, Inr mp) \<and>
              own_results r (\<lambda>asset. cog_stats env asset args) names mp"
    if "as_sequence a = Some names" "p_get_href r names = Inr urls"
       "collect (\<lambda>asset. cog_stats env asset args) urls = Inr results" for results
    using dict_operation_own [OF that] by (simp add: stats_def s)
  have h: "\<exists>mp. info env r a = (urls, Inr mp) \<and>
              own_results r (\<lambda>asset. cog_info env asset (tms r)) names mp"
    if "as_sequence a = Some names" "p_get_href r names = Inr urls"
       "collect (\<lambda>asset. cog_info env asset (tms r)) urls = Inr results" for results
    using dict_operation_own [OF that] by (simp add: info_def i)
  have k: "\<exists>mp. metadata env r a args = (urls, Inr mp) \<and>
              own_results r (\<lambda>asset. cog_metadata env asset args) names mp"
    if "as_sequence a = Some names" "p_get_href r names = Inr urls"
       "collect (\<lambda>asset. cog_metadata env asset args) urls = Inr results" for results
    using dict_operation_own [OF that] by (simp add: metadata_def m)
  from e g h k show ?thesis by blast
qed

theorem dict_operations_per_asset_witness:
  "stats ex_env (STACReader ''item.json'') (AssetList []) () = ([], Inr Map.empty) \<and>
   as_sequence (AssetList [''B02'', ''B01'']) = Some [''B02'', ''B01''] \<and>
   p_get_href ex_open [''B02'', ''B01''] = Inr [''https://x/B02.tif'', ''https://x/B01.tif''] \<and>
   collect (\<lambda>asset. cog_stats ex_env asset ()) [''https://x/B02.tif'', ''https://x/B01.tif''] =
     Inr [''statistics of https://x/B02.tif'', ''statistics of https://x/B01.tif''] \<and>
   stats ex_env ex_open (AssetList [''B02'', ''B01'']) () =
     ([''https://x/B02.tif'', ''https://x/B01.tif''],
      Inr [''B02'' \<mapsto> ''statistics of https://x/B02.tif'',
           ''B01'' \<mapsto> ''statistics of https://x/B01.tif''])"
proof -
  from dict_operations_per_asset [of ex_env "STACReader ''item.json''" "()"]
  have e: "stats ex_env (STACReader ''item.json'') (AssetList []) () = ([], Inr Map.empty)"
    by blast
  have q: "as_sequence (AssetList [''B02'', ''B01'']) = Some [''B02'', ''B01'']"
    by (simp add: as_sequence_def)
  have u: "p_get_href ex_open [''B02'', ''B01''] = Inr [''https://x/B02.tif'', ''https://x/B01.tif'']"
    by (simp add: p_get_href_def ex_open_def ex_item_def)
  have c: "collect (\<lambda>asset. cog_stats ex_env asset ()) [''https://x/B02.tif'', ''https://x/B01.tif''] =
     Inr [''statistics of https://x/B02.tif'', ''statistics of https://x/B01.tif'']"
    by (simp add: ex_env_def)
  have v: "stats ex_env ex_open (AssetList [''B02'', ''B01'']) () =
     ([''https://x/B02.tif'', ''https://x/B01.tif''],
      Inr [''B02'' \<mapsto> ''statistics of https://x/B02.tif'',
           ''B01'' \<mapsto> ''statistics of https://x/B01.tif''])"
    by (simp add: stats_def dict_operation_def q u p_stats_def executor_map_def ex_env_def
        enumerate_eq_zip py_dict_def upt_rec)
  from e q u c v show ?thesis by simp
qed

text \<open>
  Claim C10: \<open>__exit__\<close> returns the reader as it is: the item, the bounds and the
  eligible asset list that \<open>__enter__\<close> has set are still set, and every operation gives
  the same outcome after the exit as before it.
\<close>

theorem exit_changes_nothing:
  "reader_exit r = r \<and>
   item (reader_exit r) = item r \<and> bounds (reader_exit r) = bounds r \<and>
   assets (reader_exit r) = assets r \<and>
   (reader_enter fetch r0 = Inr r \<longrightarrow>
      item (reader_exit r) \<noteq> None \<and> bounds (reader_exit r) \<noteq> None \<and>
      assets (reader_exit r) \<noteq> None) \<and>
   tile env (reader_exit r) args a e = tile env r args a e \<and>
   part env (reader_exit r) args a e = part env r args a e \<and>
   preview env (reader_exit r) args a e = preview env r args a e \<and>
   point env (reader_exit r) args a e = point env r args a e \<and>
   stats env (reader_exit r) a args = stats env r a args \<and>
   info env (reader_exit r) a = info env r a \<and>
   metadata env (reader_exit r) a args = metadata env r a args"
  by (auto simp: reader_exit_def reader_enter_def split: sum.splits option.splits)

theorem exit_changes_nothing_witness:
  "reader_enter ex_fetch (STACReader ''item.json'') = Inr ex_open \<and>
   reader_exit ex_open = ex_open \<and>
   assets (reader_exit ex_open) = Some [''B01'', ''B02''] \<and>
   tile ex_env (reader_exit ex_open) () NoAssets (Some ''B01/B02'') =
     ([''https://x/B01.tif'', ''https://x/B02.tif''],
      Inr (\<lparr>shape = [1, 1, 2], elems = [Finite float64_max, Finite 0]\<rparr>,
           \<lparr>shape = [1, 2], elems = [255, 0]\<rparr>))"
proof -
  from exit_changes_nothing [of ex_open ex_fetch "STACReader ''item.json''" ex_env "()" NoAssets
      "Some ''B01/B02''"]
  have "reader_exit ex_open = ex_open"
    and "tile ex_env (reader_exit ex_open) () NoAssets (Some ''B01/B02'') =
         tile ex_env ex_open () NoAssets (Some ''B01/B02'')"
    by blast+
  with ex_enter ex_tile_expression show ?thesis
    by (simp add: ex_open_def)
qed

end
